theory Spec2Isabelle
  imports Main "HOL-Library.AList"
begin

section \<open>Values of the JavaScript runtime\<close>

text \<open>
  The daemon (\<^verbatim>\<open>browser-daemon.js\<close>) only parses, stores, compares and re-serialises JSON
  values. A value is kept as the tree that \<^verbatim>\<open>JSON.parse\<close> returns; what is written to a
  socket or an HTTP reply is kept as the value handed to \<^verbatim>\<open>JSON.stringify\<close>. Numbers are
  never computed with, only compared as \<^verbatim>\<open>Map\<close> keys and echoed, and are carried as integers
  (the client sends \<^verbatim>\<open>Date.now()\<close>). An object is the list of its own properties, each name
  once.
\<close>

datatype jsval =
    JUndefined
  | JNull
  | JBool bool
  | JNum int
  | JStr string
  | JArr "jsval list"
  | JObj "(string \<times> jsval) list"

datatype js_error = SyntaxError string | TypeError string

fun message :: "js_error \<Rightarrow> string" where
  "message (SyntaxError m) = m"
| "message (TypeError m) = m"

text \<open>
  \<^verbatim>\<open>JSON.parse\<close> belongs to the runtime, not to the repository: it is a parameter of every
  handler that calls it. \<open>Inl\<close> is the exception it throws.
\<close>

type_synonym json_parse = "string \<Rightarrow> js_error + jsval"

text \<open>
  Reading the property \<^verbatim>\<open>requestId\<close> (\<^verbatim>\<open>command.requestId\<close>, or the destructuring
  \<^verbatim>\<open>const { requestId } = response\<close>): \<open>None\<close> is the \<^verbatim>\<open>TypeError\<close> the runtime throws on
  \<^verbatim>\<open>null\<close> and \<^verbatim>\<open>undefined\<close>; an object yields its own property or \<^verbatim>\<open>undefined\<close>; every
  other value yields \<^verbatim>\<open>undefined\<close>.
\<close>

fun requestId_of :: "jsval \<Rightarrow> jsval option" where
  "requestId_of JUndefined = None"
| "requestId_of JNull = None"
| "requestId_of (JObj fields) =
     Some (case map_of fields ''requestId'' of None \<Rightarrow> JUndefined | Some v \<Rightarrow> v)"
| "requestId_of v = Some JUndefined"

text \<open>The \<^verbatim>\<open>TypeError\<close> of \<^verbatim>\<open>command.requestId\<close> and of the destructuring, with Node's texts.\<close>

definition type_name :: "jsval \<Rightarrow> string" where
  "type_name v = (if v = JUndefined then ''undefined'' else ''null'')"

definition read_error :: "jsval \<Rightarrow> js_error" where
  "read_error v =
     TypeError (''Cannot read properties of '' @ type_name v @ '' (reading 'requestId')'')"

definition destructure_error :: "jsval \<Rightarrow> js_error" where
  "destructure_error v =
     TypeError (''Cannot destructure property 'requestId' of 'response' as it is ''
                @ type_name v @ ''.'')"

text \<open>
  Conversion to a string, as a template literal does it with \<^verbatim>\<open>${requestId}\<close>. A primitive
  value always converts. An object converts through \<^verbatim>\<open>Object.prototype.toString\<close> unless it
  has a property \<^verbatim>\<open>toString\<close> of its own: no value read from JSON can be called, and
  \<^verbatim>\<open>valueOf\<close> then yields at best the object itself, so the conversion throws a
  \<^verbatim>\<open>TypeError\<close>. An array converts by joining the conversions of its elements.
\<close>

fun unprintable :: "jsval \<Rightarrow> bool" where
  "unprintable (JObj fields) = (map_of fields ''toString'' \<noteq> None)"
| "unprintable (JArr xs) = list_ex unprintable xs"
| "unprintable v = False"

definition convert_error :: js_error where
  "convert_error = TypeError ''Cannot convert object to primitive value''"

text \<open>
  Keys of the \<^verbatim>\<open>Map\<close>. Primitive values are compared by value. Arrays and objects are
  compared by identity: each successful \<^verbatim>\<open>JSON.parse\<close> allocates its result afresh, so such a
  key is named by the number of the parse that created it.
\<close>

datatype key = KPrim jsval | KRef nat

fun key_of :: "nat \<Rightarrow> jsval \<Rightarrow> key" where
  "key_of a (JArr xs) = KRef a"
| "key_of a (JObj fields) = KRef a"
| "key_of a v = KPrim v"

section \<open>State of the daemon\<close>

text \<open>Sockets and timer handles are objects of the runtime; they are named by numbers.\<close>

type_synonym sock = nat
type_synonym handle = nat

text \<open>The value stored in \<^verbatim>\<open>pendingRequests\<close>: \<^verbatim>\<open>{ socket, timeout }\<close>.\<close>

record pending =
  socket :: sock
  timeout :: handle

text \<open>
  An armed timer: the variables its callback closes over (\<^verbatim>\<open>command\<close>, \<^verbatim>\<open>socket\<close>, and the
  number of the parse that allocated \<^verbatim>\<open>command\<close>) and the delay given to \<^verbatim>\<open>setTimeout\<close>.
\<close>

record timer =
  t_command :: jsval
  t_alloc :: nat
  t_socket :: sock
  delay :: nat

datatype log_entry =
    ClientConnected
  | ReceivedCommand jsval
  | QueuedCommand jsval
  | ErrorProcessing string
  | ClientDisconnected
  | SocketError string
  | SendingCommand jsval
  | ReceivedResponse jsval
  | SentResponse jsval
  | HttpError string

text \<open>
  Every call of \<^verbatim>\<open>socket.write\<close> is recorded with the socket, the value that was
  serialised, and the place in the code that made the call: the \<^verbatim>\<open>/response\<close> handler (with the
  timer handle it cancelled), a timer callback (with its own handle), or the \<^verbatim>\<open>catch\<close> block of
  the data handler.
\<close>

datatype origin = Completion handle | Expiry handle | Rejection

record wire =
  w_socket :: sock
  w_data :: jsval
  w_origin :: origin

record relay =
  pendingRequests :: "(key \<times> pending) list"
  commandQueue :: "jsval list"
  timers :: "(handle \<times> timer) list"
  next_timer :: handle
  next_alloc :: nat
  buffers :: "(sock \<times> string) list"
  closed :: "sock set"
  writes :: "wire list"
  delivered :: "wire list"
  log_file :: "log_entry list"
  crashed :: "js_error option"

definition init :: relay where
  "init = \<lparr> pendingRequests = [], commandQueue = [], timers = [], next_timer = 0,
            next_alloc = 0, buffers = [], closed = {}, writes = [], delivered = [],
            log_file = [],
            crashed = None \<rparr>"

text \<open>
  The variable \<^verbatim>\<open>buffer\<close> of a connection: created empty by the connection callback, it holds
  the text received after the last newline.
\<close>

definition buffer :: "relay \<Rightarrow> sock \<Rightarrow> string" where
  "buffer st s = (case map_of (buffers st) s of None \<Rightarrow> [] | Some text \<Rightarrow> text)"

definition log :: "log_entry \<Rightarrow> relay \<Rightarrow> relay" where
  "log entry st = st\<lparr>log_file := log_file st @ [entry]\<rparr>"

text \<open>
  \<^verbatim>\<open>socket.write\<close>. The socket object is the runtime's. Every call is recorded in \<open>writes\<close>;
  what reaches the client is recorded in \<open>delivered\<close>: a write to a connection that the client
  has ended delivers nothing. The call never throws, and the daemon neither passes a callback
  nor reads the result: it does not learn whether the data was delivered.
\<close>

definition socket_write :: "sock \<Rightarrow> jsval \<Rightarrow> origin \<Rightarrow> relay \<Rightarrow> relay" where
  "socket_write s v src st =
     (let w = \<lparr>w_socket = s, w_data = v, w_origin = src\<rparr>;
          st' = st\<lparr>writes := writes st @ [w]\<rparr>
      in if s \<in> closed st then st' else st'\<lparr>delivered := delivered st @ [w]\<rparr>)"

section \<open>The HTTP server\<close>

datatype body = NoBody | Text string | Json jsval

record reply =
  status :: nat
  headers :: "(string \<times> string) list"
  content :: body

definition json_header :: "(string \<times> string) list" where
  "json_header = [(''Content-Type'', ''application/json'')]"

text \<open>\<^verbatim>\<open>GET /poll\<close>: \<^verbatim>\<open>commandQueue.shift()\<close> when the queue is not empty, 204 otherwise.\<close>

definition poll :: "relay \<Rightarrow> reply \<times> relay" where
  "poll st =
     (case commandQueue st of
        command # rest \<Rightarrow>
          (\<lparr>status = 200, headers = json_header, content = Json command\<rparr>,
           log (SendingCommand command) (st\<lparr>commandQueue := rest\<rparr>))
      | [] \<Rightarrow> (\<lparr>status = 204, headers = [], content = NoBody\<rparr>, st))"

text \<open>The \<^verbatim>\<open>catch\<close> block of the request handler.\<close>

definition http_error :: "js_error \<Rightarrow> relay \<Rightarrow> reply \<times> relay" where
  "http_error err st =
     (\<lparr>status = 500, headers = [], content = Text (message err)\<rparr>,
      log (HttpError (message err)) st)"

text \<open>
  \<^verbatim>\<open>POST /response\<close>. When the entry is found: \<^verbatim>\<open>clearTimeout\<close>, \<^verbatim>\<open>delete\<close> and
  \<^verbatim>\<open>socket.write\<close>; then the log line, whose template literal converts \<^verbatim>\<open>requestId\<close> to a
  string and can throw into the \<^verbatim>\<open>catch\<close> block of the request handler.
\<close>

definition settle :: "key \<Rightarrow> pending \<Rightarrow> jsval \<Rightarrow> relay \<Rightarrow> relay" where
  "settle k p response st =
     socket_write (socket p) response (Completion (timeout p))
       (st\<lparr>timers := AList.delete (timeout p) (timers st),
           pendingRequests := AList.delete k (pendingRequests st)\<rparr>)"

definition ok_reply :: reply where
  "ok_reply = \<lparr>status = 200, headers = [], content = Text ''OK''\<rparr>"

definition post_response :: "json_parse \<Rightarrow> string \<Rightarrow> relay \<Rightarrow> reply \<times> relay" where
  "post_response parse body st =
     (case parse body of
        Inl err \<Rightarrow> http_error err st
      | Inr response \<Rightarrow>
          (let st1 = log (ReceivedResponse response) (st\<lparr>next_alloc := Suc (next_alloc st)\<rparr>)
           in case requestId_of response of
                None \<Rightarrow> http_error (destructure_error response) st1
              | Some requestId \<Rightarrow>
                  (case map_of (pendingRequests st1) (key_of (next_alloc st) requestId) of
                     None \<Rightarrow> (ok_reply, st1)
                   | Some p \<Rightarrow>
                       (let st2 = settle (key_of (next_alloc st) requestId) p response st1
                        in if unprintable requestId then http_error convert_error st2
                           else (ok_reply, log (SentResponse requestId) st2)))))"

text \<open>\<^verbatim>\<open>GET /health\<close>.\<close>

definition health :: "relay \<Rightarrow> reply \<times> relay" where
  "health st =
     (\<lparr>status = 200, headers = json_header,
       content = Json (JObj [(''status'', JStr ''ok''),
                             (''pending'', JNum (int (length (pendingRequests st)))),
                             (''queued'', JNum (int (length (commandQueue st))))])\<rparr>,
      st)"

definition not_found :: "relay \<Rightarrow> reply \<times> relay" where
  "not_found st = (\<lparr>status = 404, headers = [], content = Text ''Not found''\<rparr>, st)"

text \<open>The callback of \<^verbatim>\<open>http.createServer\<close>, once the request body has been read.\<close>

definition handle_request ::
  "json_parse \<Rightarrow> string \<Rightarrow> string \<Rightarrow> string \<Rightarrow> relay \<Rightarrow> reply \<times> relay" where
  "handle_request parse method url body st =
     (if method = ''GET'' \<and> url = ''/poll'' then poll st
      else if method = ''POST'' \<and> url = ''/response'' then post_response parse body st
      else if method = ''GET'' \<and> url = ''/health'' then health st
      else not_found st)"

section \<open>The socket server\<close>

text \<open>\<^verbatim>\<open>String.prototype.split('\n')\<close>: at least one piece, the last one after the last newline.\<close>

fun split_lines :: "string \<Rightarrow> string list" where
  "split_lines [] = [[]]"
| "split_lines (c # cs) =
     (if c = CHR 0x0A then [] # split_lines cs
      else (case split_lines cs of
              piece # pieces \<Rightarrow> (c # piece) # pieces
            | [] \<Rightarrow> [[c]]))"

text \<open>\<^verbatim>\<open>String.prototype.trim\<close> on the white space and line terminators of one-byte characters.\<close>

definition white_space :: "char \<Rightarrow> bool" where
  "white_space c \<longleftrightarrow> c \<in> set [CHR 0x09, CHR 0x0A, CHR 0x0B, CHR 0x0C, CHR 0x0D, CHR 0x20, CHR 0xA0]"

definition trim :: "string \<Rightarrow> string" where
  "trim s = rev (dropWhile white_space (rev (dropWhile white_space s)))"

text \<open>The object written by a timer callback.\<close>

definition timeout_result :: "jsval \<Rightarrow> jsval" where
  "timeout_result requestId =
     JObj [(''requestId'', requestId), (''success'', JBool False),
           (''error'', JStr ''Timeout waiting for extension response'')]"

text \<open>The \<^verbatim>\<open>catch\<close> block of the loop over the lines.\<close>

definition reject :: "sock \<Rightarrow> js_error \<Rightarrow> relay \<Rightarrow> relay" where
  "reject s err st =
     socket_write s (JObj [(''success'', JBool False), (''error'', JStr (message err))]) Rejection
       (log (ErrorProcessing (message err)) st)"

text \<open>
  \<^verbatim>\<open>setTimeout(callback, 30000)\<close>: arms a timer under a fresh handle. The callback is kept as
  the variables it closes over.
\<close>

definition setTimeout :: "jsval \<Rightarrow> nat \<Rightarrow> sock \<Rightarrow> nat \<Rightarrow> relay \<Rightarrow> relay" where
  "setTimeout command a s ms st =
     st\<lparr>timers := timers st @ [(next_timer st,
                                 \<lparr>t_command = command, t_alloc = a, t_socket = s, delay = ms\<rparr>)],
        next_timer := Suc (next_timer st)\<rparr>"

text \<open>
  The body of \<^verbatim>\<open>for (const line of lines)\<close>. Inside the \<^verbatim>\<open>try\<close>, in this order:
  \<^verbatim>\<open>JSON.parse\<close>, the log line, \<^verbatim>\<open>setTimeout\<close>, \<^verbatim>\<open>pendingRequests.set\<close> (which reads
  \<^verbatim>\<open>command.requestId\<close>), \<^verbatim>\<open>commandQueue.push\<close>, and a second log line whose template literal
  converts \<^verbatim>\<open>command.requestId\<close> to a string. Whichever of them throws, the \<^verbatim>\<open>catch\<close> block
  runs on the state as it is by then.
\<close>

definition handle_line :: "json_parse \<Rightarrow> sock \<Rightarrow> string \<Rightarrow> relay \<Rightarrow> relay" where
  "handle_line parse s line st =
     (if trim line = [] then st
      else case parse line of
        Inl err \<Rightarrow> reject s err st
      | Inr command \<Rightarrow>
          (let a = next_alloc st;
               h = next_timer st;
               st1 = log (ReceivedCommand command) (st\<lparr>next_alloc := Suc a\<rparr>);
               st2 = setTimeout command a s 30000 st1
           in case requestId_of command of
                None \<Rightarrow> reject s (read_error command) st2
              | Some requestId \<Rightarrow>
                  (let st3 = st2\<lparr>pendingRequests :=
                                  AList.update (key_of a requestId) \<lparr>socket = s, timeout = h\<rparr>
                                    (pendingRequests st2),
                                commandQueue := commandQueue st2 @ [command]\<rparr>
                   in if unprintable requestId then reject s convert_error st3
                      else log (QueuedCommand requestId) st3)))"

text \<open>The \<^verbatim>\<open>data\<close> handler of a connection.\<close>

definition handle_data :: "json_parse \<Rightarrow> sock \<Rightarrow> string \<Rightarrow> relay \<Rightarrow> relay" where
  "handle_data parse s chunk st =
     (let pieces = split_lines (buffer st s @ chunk)
      in fold (handle_line parse s) (butlast pieces)
           (st\<lparr>buffers := AList.update s (last pieces) (buffers st)\<rparr>))"

text \<open>
  The callback given to \<^verbatim>\<open>setTimeout\<close>, run when the timer with handle \<open>h\<close> fires. A timer
  fires once; an exception thrown by the callback is caught by nobody and ends the process.
\<close>

definition expire :: "handle \<Rightarrow> timer \<Rightarrow> relay \<Rightarrow> relay" where
  "expire h t st =
     (case requestId_of (t_command t) of
        None \<Rightarrow> st\<lparr>crashed := Some (read_error (t_command t))\<rparr>
      | Some requestId \<Rightarrow>
          (let k = key_of (t_alloc t) requestId
           in if map_of (pendingRequests st) k \<noteq> None
              then socket_write (t_socket t) (timeout_result requestId) (Expiry h)
                     (st\<lparr>pendingRequests := AList.delete k (pendingRequests st)\<rparr>)
              else st))"

definition fire :: "handle \<Rightarrow> relay \<Rightarrow> relay" where
  "fire h st =
     (case map_of (timers st) h of
        None \<Rightarrow> st
      | Some t \<Rightarrow> expire h t (st\<lparr>timers := AList.delete h (timers st)\<rparr>))"

section \<open>Events\<close>

text \<open>
  The daemon is single-threaded: each event of the runtime runs one handler to completion.
  Real time is not modelled; a timer may fire at any moment while it is armed. The runtime
  names every connection by a socket of its own. After an uncaught exception the process is
  gone and no handler runs.
\<close>

datatype event =
    Connect sock
  | Data sock string
  | End sock
  | Error sock string
  | Request string string string
  | Fire handle

definition step :: "json_parse \<Rightarrow> event \<Rightarrow> relay \<Rightarrow> relay" where
  "step parse ev st =
     (if crashed st \<noteq> None then st
      else case ev of
        Connect s \<Rightarrow> log ClientConnected (st\<lparr>buffers := AList.update s [] (buffers st)\<rparr>)
      | Data s chunk \<Rightarrow> handle_data parse s chunk st
      | End s \<Rightarrow> log ClientDisconnected (st\<lparr>closed := insert s (closed st)\<rparr>)
      | Error s msg \<Rightarrow> log (SocketError msg) st
      | Request method url body \<Rightarrow> snd (handle_request parse method url body st)
      | Fire h \<Rightarrow> fire h st)"

definition run :: "json_parse \<Rightarrow> event list \<Rightarrow> relay \<Rightarrow> relay" where
  "run parse evs st = fold (step parse) evs st"

section \<open>Histories\<close>

text \<open>
  The writes that resolved the call whose timer has handle \<open>h\<close>: the completion that
  cancelled that timer, or the expiry of that timer.
\<close>

definition results_for :: "handle \<Rightarrow> wire list \<Rightarrow> wire list" where
  "results_for h ws = filter (\<lambda>w. w_origin w = Completion h \<or> w_origin w = Expiry h) ws"

text \<open>
  The submissions, read off the events alone. The text a connection sends is cut at every
  newline; the lines come in the order in which their newlines arrive, whatever connection
  they are on. A line is accepted when it is not blank, parses, and its \<^verbatim>\<open>requestId\<close> can be
  read.
\<close>

fun feed :: "string \<Rightarrow> string \<Rightarrow> string list \<times> string" where
  "feed partial [] = ([], partial)"
| "feed partial (c # cs) =
     (if c = CHR 0x0A then (partial # fst (feed [] cs), snd (feed [] cs))
      else feed (partial @ [c]) cs)"

fun arrivals :: "(sock \<Rightarrow> string) \<Rightarrow> event list \<Rightarrow> string list" where
  "arrivals partial [] = []"
| "arrivals partial (Connect s # evs) = arrivals (partial(s := [])) evs"
| "arrivals partial (Data s chunk # evs) =
     fst (feed (partial s) chunk) @ arrivals (partial(s := snd (feed (partial s) chunk))) evs"
| "arrivals partial (ev # evs) = arrivals partial evs"

definition accepted :: "json_parse \<Rightarrow> string \<Rightarrow> jsval list" where
  "accepted parse line =
     (if trim line = [] then []
      else case parse line of
        Inl err \<Rightarrow> []
      | Inr command \<Rightarrow> (case requestId_of command of None \<Rightarrow> [] | Some requestId \<Rightarrow> [command]))"

definition submitted :: "json_parse \<Rightarrow> event list \<Rightarrow> jsval list" where
  "submitted parse evs = concat (map (accepted parse) (arrivals (\<lambda>s. []) evs))"

text \<open>
  The commands handed to the executor, read off the replies: a poll that is answered with a
  JSON body hands out that command.
\<close>

definition polled_by :: "json_parse \<Rightarrow> event \<Rightarrow> relay \<Rightarrow> jsval list" where
  "polled_by parse ev st =
     (case ev of
        Request method url body \<Rightarrow>
          if crashed st = None \<and> method = ''GET'' \<and> url = ''/poll''
          then (case content (fst (handle_request parse method url body st)) of
                  Json command \<Rightarrow> [command]
                | _ \<Rightarrow> [])
          else []
      | _ \<Rightarrow> [])"

fun polled :: "json_parse \<Rightarrow> event list \<Rightarrow> relay \<Rightarrow> jsval list" where
  "polled parse [] st = []"
| "polled parse (ev # evs) st = polled_by parse ev st @ polled parse evs (step parse ev st)"

section \<open>Invariants of the reachable states\<close>

text \<open>
  Armed timers were created by \<^verbatim>\<open>setTimeout(..., 30000)\<close> under handles already given out.
\<close>

definition timers_ok :: "relay \<Rightarrow> bool" where
  "timers_ok st \<longleftrightarrow> (\<forall>h t. (h, t) \<in> set (timers st) \<longrightarrow> h < next_timer st \<and> delay t = 30000)"

text \<open>
  Every entry of \<^verbatim>\<open>pendingRequests\<close> holds the handle of an armed timer whose callback closes
  over the entry's socket and over a command with the entry's key.
\<close>

definition entries_ok :: "relay \<Rightarrow> bool" where
  "entries_ok st \<longleftrightarrow>
     (\<forall>k p. map_of (pendingRequests st) k = Some p \<longrightarrow>
        (\<exists>t. map_of (timers st) (timeout p) = Some t \<and> t_socket t = socket p \<and>
             (\<exists>requestId. requestId_of (t_command t) = Some requestId \<and>
                           key_of (t_alloc t) requestId = k)))"

text \<open>No call is resolved twice, and a resolved call's timer is no longer armed.\<close>

definition results_ok :: "relay \<Rightarrow> bool" where
  "results_ok st \<longleftrightarrow>
     (\<forall>h. length (results_for h (writes st)) \<le> 1 \<and>
          (results_for h (writes st) \<noteq> [] \<longrightarrow> h < next_timer st \<and> map_of (timers st) h = None))"

text \<open>Keys are unique, and a key that is an object was allocated by a parse already made.\<close>

definition keys_ok :: "relay \<Rightarrow> bool" where
  "keys_ok st \<longleftrightarrow>
     distinct (map fst (pendingRequests st)) \<and>
     (\<forall>a. KRef a \<in> fst ` set (pendingRequests st) \<longrightarrow> a < next_alloc st)"

definition wf :: "relay \<Rightarrow> bool" where
  "wf st \<longleftrightarrow> timers_ok st \<and> entries_ok st \<and> results_ok st \<and> keys_ok st"

section \<open>Worked inputs\<close>

text \<open>
  The texts used in the worked examples below, and \<^verbatim>\<open>JSON.parse\<close> on exactly these texts.
  No other text is used; the last case is Node's answer to the empty text.
\<close>

definition navigate_line :: string where
  \<open>navigate_line = ''{"type":"navigate","data":{"url":"https://x"},"requestId":1}''\<close>

definition navigate_command :: jsval where
  "navigate_command =
     JObj [(''type'', JStr ''navigate''), (''data'', JObj [(''url'', JStr ''https://x'')]),
           (''requestId'', JNum 1)]"

definition tabs_line :: string where
  \<open>tabs_line = ''{"type":"get_tabs","data":{},"requestId":1}''\<close>

definition tabs_command :: jsval where
  "tabs_command = JObj [(''type'', JStr ''get_tabs''), (''data'', JObj []), (''requestId'', JNum 1)]"

definition result_text :: string where
  \<open>result_text = ''{"requestId":1,"success":true,"data":{"tabId":7}}''\<close>

definition result_value :: jsval where
  "result_value =
     JObj [(''requestId'', JNum 1), (''success'', JBool True), (''data'', JObj [(''tabId'', JNum 7)])]"

definition stray_text :: string where
  \<open>stray_text = ''{"requestId":99,"success":true}''\<close>

definition stray_value :: jsval where
  "stray_value = JObj [(''requestId'', JNum 99), (''success'', JBool True)]"

text \<open>A command whose \<^verbatim>\<open>requestId\<close> is an object that cannot be converted to a string.\<close>

definition odd_line :: string where
  \<open>odd_line = ''{"type":"get_tabs","data":{},"requestId":{"toString":1}}''\<close>

definition odd_command :: jsval where
  "odd_command =
     JObj [(''type'', JStr ''get_tabs''), (''data'', JObj []),
           (''requestId'', JObj [(''toString'', JNum 1)])]"

text \<open>
  The messages of \<^verbatim>\<open>JSON.parse\<close> for two texts that are not JSON, as V8 words them: the
  message names the offending character and quotes the text.
\<close>

definition oops_message :: string where
  \<open>oops_message = ''Unexpected token 'o', "oops" is not valid JSON''\<close>

definition also_message :: string where
  \<open>also_message = ''Unexpected token 'a', "also not json" is not valid JSON''\<close>

text \<open>
  \<^verbatim>\<open>JSON.parse\<close> on the texts used below. The examples apply it to these eight texts only;
  the last line gives the message for a text that ends before a value is complete, and
  stands for the texts that the examples never parse.
\<close>

definition sample_parse :: json_parse where
  "sample_parse text =
     (if text = navigate_line then Inr navigate_command
      else if text = tabs_line then Inr tabs_command
      else if text = odd_line then Inr odd_command
      else if text = result_text then Inr result_value
      else if text = stray_text then Inr stray_value
      else if text = ''null'' then Inr JNull
      else if text = ''oops'' then Inl (SyntaxError oops_message)
      else if text = ''also not json'' then Inl (SyntaxError also_message)
      else Inl (SyntaxError ''Unexpected end of JSON input''))"

section \<open>The invariants hold in every reachable state\<close>

lemmas wf_defs = wf_def timers_ok_def entries_ok_def results_ok_def keys_ok_def

lemma wf_init: "wf init"
  by (simp add: wf_defs init_def results_for_def)

lemma results_for_snoc:
  "results_for h (ws @ [w]) =
     results_for h ws @ (if w_origin w = Completion h \<or> w_origin w = Expiry h then [w] else [])"
  by (simp add: results_for_def)

lemma wf_log: "wf (log e st) = wf st"
  by (simp add: wf_defs log_def)

lemma wf_reject: "wf st \<Longrightarrow> wf (reject s err st)"
  by (simp add: wf_defs reject_def socket_write_def log_def Let_def results_for_snoc)

lemma map_of_snoc_fresh:
  "map_of ts h0 = None \<Longrightarrow> map_of (ts @ [(h0, t0)]) h = (if h = h0 then Some t0 else map_of ts h)"
  by (auto simp: map_add_def split: option.splits)

lemma fresh_timer: "timers_ok st \<Longrightarrow> map_of (timers st) (next_timer st) = None"
  by (force simp: timers_ok_def map_of_eq_None_iff)

lemma timers_ok_setTimeout: "timers_ok st \<Longrightarrow> timers_ok (setTimeout c a s 30000 st)"
  unfolding timers_ok_def setTimeout_def by (auto simp: less_Suc_eq)

lemma timers_setTimeout:
  "timers_ok st \<Longrightarrow> map_of (timers (setTimeout c a s ms st)) h =
     (if h = next_timer st then Some \<lparr>t_command = c, t_alloc = a, t_socket = s, delay = ms\<rparr>
      else map_of (timers st) h)"
  using fresh_timer [of st] by (auto simp: setTimeout_def map_add_def split: option.splits)

lemma entries_ok_setTimeout:
  assumes "timers_ok st" "entries_ok st" shows "entries_ok (setTimeout c a s ms st)"
  unfolding entries_ok_def
proof (intro allI impI)
  fix k p assume "map_of (pendingRequests (setTimeout c a s ms st)) k = Some p"
  then have kp: "map_of (pendingRequests st) k = Some p" by (simp add: setTimeout_def)
  with assms(2) obtain t where t: "map_of (timers st) (timeout p) = Some t" "t_socket t = socket p"
      "\<exists>requestId. requestId_of (t_command t) = Some requestId \<and> key_of (t_alloc t) requestId = k"
    unfolding entries_ok_def by blast
  have "timeout p \<noteq> next_timer st" using t(1) fresh_timer [OF assms(1)] by auto
  then have "map_of (timers (setTimeout c a s ms st)) (timeout p) = Some t"
    using t(1) timers_setTimeout [OF assms(1)] by simp
  with t show "\<exists>t. map_of (timers (setTimeout c a s ms st)) (timeout p) = Some t \<and> t_socket t = socket p \<and>
             (\<exists>requestId. requestId_of (t_command t) = Some requestId \<and>
                           key_of (t_alloc t) requestId = k)" by blast
qed

lemma results_ok_setTimeout:
  assumes "timers_ok st" "results_ok st" shows "results_ok (setTimeout c a s ms st)"
  unfolding results_ok_def
proof (intro allI conjI impI)
  fix h
  have w: "writes (setTimeout c a s ms st) = writes st" and n: "next_timer (setTimeout c a s ms st) = Suc (next_timer st)"
    by (simp_all add: setTimeout_def)
  show "length (results_for h (writes (setTimeout c a s ms st))) \<le> 1"
    using assms(2) by (simp add: w results_ok_def)
  assume "results_for h (writes (setTimeout c a s ms st)) \<noteq> []"
  then have *: "h < next_timer st" "map_of (timers st) h = None"
    using assms(2) by (simp_all add: w results_ok_def)
  show "h < next_timer (setTimeout c a s ms st)" using * by (simp add: n)
  show "map_of (timers (setTimeout c a s ms st)) h = None"
    using * by (simp add: timers_setTimeout [OF assms(1)])
qed

lemma keys_ok_setTimeout: "keys_ok (setTimeout c a s ms st) = keys_ok st"
  by (simp add: keys_ok_def setTimeout_def)

lemma wf_setTimeout: "wf st \<Longrightarrow> wf (setTimeout c a s 30000 st)"
  by (simp add: wf_def timers_ok_setTimeout entries_ok_setTimeout results_ok_setTimeout keys_ok_setTimeout)


lemma timers_ok_mono:
  "timers_ok st \<Longrightarrow> set (timers st') \<subseteq> set (timers st) \<Longrightarrow> next_timer st \<le> next_timer st' \<Longrightarrow> timers_ok st'"
  unfolding timers_ok_def by (meson less_le_trans subsetD)

lemma set_delete_subset: "set (AList.delete h ts) \<subseteq> set ts"
  by (auto simp: AList.delete_eq)

lemma keys_ok_delete:
  "keys_ok st \<Longrightarrow> pendingRequests st' = AList.delete k (pendingRequests st) \<Longrightarrow>
   next_alloc st \<le> next_alloc st' \<Longrightarrow> keys_ok st'"
  unfolding keys_ok_def
  using dom_delete_subset [of k "pendingRequests st"]
  by (auto simp: distinct_delete intro: less_le_trans)

lemma delete_absent: "map_of al k = None \<Longrightarrow> AList.delete k al = al"
  by (induction al) (auto split: if_splits)

lemma fresh_ref: "keys_ok st \<Longrightarrow> next_alloc st \<le> a \<Longrightarrow> map_of (pendingRequests st) (KRef a) = None"
  unfolding keys_ok_def by (metis map_of_eq_None_iff not_le)

text \<open>An entry's timer carries the entry's key, so two entries never share a timer.\<close>

lemma entry_timer_key:
  assumes "entries_ok st" "map_of (pendingRequests st) k = Some p"
    "map_of (pendingRequests st) k' = Some p'" "timeout p' = timeout p"
  shows "k' = k"
  using assms unfolding entries_ok_def by (metis option.inject)

lemma entries_ok_delete:
  assumes ok: "entries_ok st"
    and pend: "pendingRequests st' = AList.delete k (pendingRequests st)"
    and tim: "timers st' = AList.delete h (timers st)"
    and other: "\<And>k' p'. k' \<noteq> k \<Longrightarrow> map_of (pendingRequests st) k' = Some p' \<Longrightarrow> timeout p' \<noteq> h"
  shows "entries_ok st'"
  unfolding entries_ok_def
proof (intro allI impI)
  fix k' p' assume "map_of (pendingRequests st') k' = Some p'"
  then have k': "k' \<noteq> k" "map_of (pendingRequests st) k' = Some p'"
    by (auto simp: pend delete_conv' split: if_splits)
  then have "timeout p' \<noteq> h" by (rule other)
  then have "map_of (timers st') (timeout p') = map_of (timers st) (timeout p')"
    by (simp add: tim delete_conv')
  with ok k'(2) show "\<exists>t. map_of (timers st') (timeout p') = Some t \<and> t_socket t = socket p' \<and>
             (\<exists>requestId. requestId_of (t_command t) = Some requestId \<and>
                           key_of (t_alloc t) requestId = k')"
    unfolding entries_ok_def by simp
qed

lemma results_ok_resolved:
  assumes ok: "results_ok st"
    and armed: "map_of (timers st) h = Some t" "h < next_timer st"
    and w: "writes st' = writes st @ [w]" "w_origin w = Completion h \<or> w_origin w = Expiry h"
    and tim: "timers st' = AList.delete h (timers st)"
    and nt: "next_timer st' = next_timer st"
  shows "results_ok st'"
  unfolding results_ok_def
proof (intro allI)
  fix h'
  show "length (results_for h' (writes st')) \<le> 1 \<and>
          (results_for h' (writes st') \<noteq> [] \<longrightarrow> h' < next_timer st' \<and> map_of (timers st') h' = None)"
  proof (cases "h' = h")
    case True
    have "results_for h (writes st) = []"
      using ok armed(1) unfolding results_ok_def by (metis option.distinct(1))
    then show ?thesis using w armed(2) True
      by (auto simp: results_for_snoc tim nt delete_conv')
  next
    case False
    then have "results_for h' (writes st') = results_for h' (writes st)"
      using w by (auto simp: results_for_snoc)
    then show ?thesis using ok False unfolding results_ok_def
      by (simp add: tim nt delete_conv')
  qed
qed

lemma results_ok_cancelled:
  assumes ok: "results_ok st"
    and w: "writes st' = writes st"
    and tim: "timers st' = AList.delete h (timers st)"
    and nt: "next_timer st' = next_timer st"
  shows "results_ok st'"
  using ok unfolding results_ok_def by (simp add: w tim nt delete_conv')


lemma armed_fresh: "timers_ok st \<Longrightarrow> map_of (timers st) h = Some t \<Longrightarrow> h < next_timer st"
  unfolding timers_ok_def by (meson map_of_SomeD)

lemma wf_settle:
  assumes "wf st" and Some: "map_of (pendingRequests st) k = Some p"
  shows "wf (settle k p result st)"
proof -
  let ?st' = "settle k p result st"
  from assms have ok: "timers_ok st" "entries_ok st" "results_ok st" "keys_ok st"
    by (simp_all add: wf_def)
  obtain t where t: "map_of (timers st) (timeout p) = Some t"
    using ok(2) Some unfolding entries_ok_def by blast
  have fields:
    "pendingRequests ?st' = AList.delete k (pendingRequests st)"
    "timers ?st' = AList.delete (timeout p) (timers st)"
    "next_timer ?st' = next_timer st" "next_alloc ?st' = next_alloc st"
    "writes ?st' = writes st @ [\<lparr>w_socket = socket p, w_data = result, w_origin = Completion (timeout p)\<rparr>]"
    by (simp_all add: settle_def socket_write_def Let_def)
  have "timers_ok ?st'"
    by (rule timers_ok_mono [OF ok(1)]) (simp_all add: fields set_delete_subset)
  moreover have "entries_ok ?st'"
  proof (rule entries_ok_delete [OF ok(2) fields(1) fields(2)])
    fix k' p' assume "k' \<noteq> k" "map_of (pendingRequests st) k' = Some p'"
    then show "timeout p' \<noteq> timeout p" using entry_timer_key [OF ok(2) Some] by blast
  qed
  moreover have "results_ok ?st'"
    by (rule results_ok_resolved [OF ok(3) t armed_fresh [OF ok(1) t] fields(5) _ fields(2) fields(3)]) simp
  moreover have "keys_ok ?st'"
    by (rule keys_ok_delete [OF ok(4) fields(1)]) (simp add: fields)
  ultimately show ?thesis by (simp add: wf_def)
qed

lemma wf_fire:
  assumes "wf st" shows "wf (fire h st)"
proof (cases "map_of (timers st) h")
  case None
  then show ?thesis using assms by (simp add: fire_def)
next
  case (Some t)
  from assms have ok: "timers_ok st" "entries_ok st" "results_ok st" "keys_ok st"
    by (simp_all add: wf_def)
  let ?st1 = "st\<lparr>timers := AList.delete h (timers st)\<rparr>"
  have fire: "fire h st = expire h t ?st1" by (simp add: fire_def Some)
  have key: "\<exists>requestId. requestId_of (t_command t) = Some requestId \<and> key_of (t_alloc t) requestId = k'"
    if "map_of (pendingRequests st) k' = Some p'" "timeout p' = h" for k' p'
    using ok(2) that Some unfolding entries_ok_def by (metis option.inject)
  show ?thesis
  proof (cases "requestId_of (t_command t)")
    case None
    let ?st' = "?st1\<lparr>crashed := Some (read_error (t_command t))\<rparr>"
    have st': "fire h st = ?st'" by (simp add: fire expire_def None)
    have "timers_ok ?st'"
      by (rule timers_ok_mono [OF ok(1)]) (simp_all add: set_delete_subset)
    moreover have "entries_ok ?st'"
    proof (rule entries_ok_delete [OF ok(2), where k = "KRef (next_alloc st)" and h = h])
      show "pendingRequests ?st' = AList.delete (KRef (next_alloc st)) (pendingRequests st)"
        by (simp add: delete_absent fresh_ref [OF ok(4)])
      show "timers ?st' = AList.delete h (timers st)" by simp
      fix k' p' assume "map_of (pendingRequests st) k' = Some p'"
      then show "timeout p' \<noteq> h" using key None by fastforce
    qed
    moreover have "results_ok ?st'"
      by (rule results_ok_cancelled [OF ok(3), where h = h]) simp_all
    moreover have "keys_ok ?st'" using ok(4) by (simp add: keys_ok_def)
    ultimately show ?thesis by (simp add: wf_def st')
  next
    case (Some requestId)
    let ?k = "key_of (t_alloc t) requestId"
    show ?thesis
    proof (cases "map_of (pendingRequests st) ?k")
      case None
      have st': "fire h st = ?st1" by (simp add: fire expire_def Some None Let_def)
      have "timers_ok ?st1"
        by (rule timers_ok_mono [OF ok(1)]) (simp_all add: set_delete_subset)
      moreover have "entries_ok ?st1"
      proof (rule entries_ok_delete [OF ok(2), where k = ?k and h = h])
        show "pendingRequests ?st1 = AList.delete ?k (pendingRequests st)"
          using None by (simp add: delete_absent)
        show "timers ?st1 = AList.delete h (timers st)" by simp
        fix k' p' assume "k' \<noteq> ?k" "map_of (pendingRequests st) k' = Some p'"
        then show "timeout p' \<noteq> h" using key Some by fastforce
      qed
      moreover have "results_ok ?st1"
        by (rule results_ok_cancelled [OF ok(3), where h = h]) simp_all
      moreover have "keys_ok ?st1" using ok(4) by (simp add: keys_ok_def)
      ultimately show ?thesis by (simp add: wf_def st')
    next
      case (Some p)
      let ?st' = "socket_write (t_socket t) (timeout_result requestId) (Expiry h)
                     (?st1\<lparr>pendingRequests := AList.delete ?k (pendingRequests st)\<rparr>)"
      have st': "fire h st = ?st'"
        using \<open>requestId_of (t_command t) = Some requestId\<close> Some
        by (simp add: fire expire_def Let_def)
      have fields:
        "pendingRequests ?st' = AList.delete ?k (pendingRequests st)"
        "timers ?st' = AList.delete h (timers st)"
        "next_timer ?st' = next_timer st" "next_alloc ?st' = next_alloc st"
        "writes ?st' = writes st @ [\<lparr>w_socket = t_socket t, w_data = timeout_result requestId, w_origin = Expiry h\<rparr>]"
        by (simp_all add: socket_write_def log_def Let_def)
      have "timers_ok ?st'"
        by (rule timers_ok_mono [OF ok(1)]) (simp_all add: fields set_delete_subset)
      moreover have "entries_ok ?st'"
      proof (rule entries_ok_delete [OF ok(2) fields(1) fields(2)])
        fix k' p' assume "k' \<noteq> ?k" "map_of (pendingRequests st) k' = Some p'"
        then show "timeout p' \<noteq> h"
          using key \<open>requestId_of (t_command t) = Some requestId\<close> by fastforce
      qed
      moreover have "results_ok ?st'"
        by (rule results_ok_resolved [OF ok(3) \<open>map_of (timers st) h = Some t\<close>
              armed_fresh [OF ok(1) \<open>map_of (timers st) h = Some t\<close>] fields(5) _ fields(2) fields(3)]) simp
      moreover have "keys_ok ?st'"
        by (rule keys_ok_delete [OF ok(4) fields(1)]) (simp add: fields)
      ultimately show ?thesis by (simp add: wf_def st')
    qed
  qed
qed


lemma key_of_ref: "KRef b = key_of a v \<Longrightarrow> b = a"
  by (cases v) simp_all

lemma wf_register:
  assumes wf: "wf st"
    and t: "map_of (timers st) h = Some t" "t_socket t = s"
      "requestId_of (t_command t) = Some requestId" "key_of (t_alloc t) requestId = k"
    and ref: "t_alloc t < next_alloc st"
  shows "wf (st\<lparr>pendingRequests := AList.update k \<lparr>socket = s, timeout = h\<rparr> (pendingRequests st),
                 commandQueue := q\<rparr>)"
    (is "wf ?st'")
proof -
  from wf have ok: "timers_ok st" "entries_ok st" "results_ok st" "keys_ok st"
    by (simp_all add: wf_def)
  have "timers_ok ?st'" using ok(1) by (simp add: timers_ok_def)
  moreover have "entries_ok ?st'"
    using ok(2) t unfolding entries_ok_def by (auto simp: update_conv')
  moreover have "results_ok ?st'" using ok(3) by (simp add: results_ok_def)
  moreover have "keys_ok ?st'"
    using ok(4) ref t(4) unfolding keys_ok_def
    by (auto simp: distinct_update dom_update dest: key_of_ref)
  ultimately show ?thesis by (simp add: wf_def)
qed

lemma wf_alloc: "wf st \<Longrightarrow> wf (st\<lparr>next_alloc := Suc (next_alloc st)\<rparr>)"
  by (auto simp: wf_defs less_Suc_eq)

lemma wf_handle_line:
  assumes "wf st" shows "wf (handle_line parse s line st)"
proof (cases "trim line = []")
  case True
  then show ?thesis using assms by (simp add: handle_line_def)
next
  case False
  show ?thesis
  proof (cases "parse line")
    case (Inl err)
    then show ?thesis using assms False by (simp add: handle_line_def wf_reject)
  next
    case (Inr command)
    let ?st1 = "log (ReceivedCommand command) (st\<lparr>next_alloc := Suc (next_alloc st)\<rparr>)"
    let ?st2 = "setTimeout command (next_alloc st) s 30000 ?st1"
    have wf1: "wf ?st1" using assms by (simp add: wf_log wf_alloc)
    then have wf2: "wf ?st2" by (rule wf_setTimeout)
    show ?thesis
    proof (cases "requestId_of command")
      case None
      then show ?thesis using False Inr wf2
        by (simp add: handle_line_def Let_def wf_reject)
    next
      case (Some requestId)
      have tim: "map_of (timers ?st2) (next_timer st) =
          Some \<lparr>t_command = command, t_alloc = next_alloc st, t_socket = s, delay = 30000\<rparr>"
        using wf1 by (simp add: timers_setTimeout wf_def log_def)
      have "wf (?st2\<lparr>pendingRequests :=
                AList.update (key_of (next_alloc st) requestId) \<lparr>socket = s, timeout = next_timer st\<rparr>
                  (pendingRequests ?st2),
              commandQueue := commandQueue ?st2 @ [command]\<rparr>)"
        by (rule wf_register [OF wf2 tim]) (simp_all add: Some setTimeout_def log_def)
      then show ?thesis using False Inr Some
        by (simp add: handle_line_def Let_def wf_log wf_reject)
    qed
  qed
qed

lemma wf_fold_lines: "wf st \<Longrightarrow> wf (fold (handle_line parse s) ls st)"
  by (induction ls arbitrary: st) (simp_all add: wf_handle_line)

lemma wf_handle_data: "wf st \<Longrightarrow> wf (handle_data parse s chunk st)"
proof -
  assume "wf st"
  then have "wf (st\<lparr>buffers := AList.update s (last (split_lines (buffer st s @ chunk))) (buffers st)\<rparr>)"
    by (simp add: wf_defs)
  then show ?thesis by (simp add: handle_data_def Let_def wf_fold_lines)
qed

lemma wf_handle_request: "wf st \<Longrightarrow> wf (snd (handle_request parse method url body st))"
proof -
  assume wf: "wf st"
  have poll: "wf (snd (poll st))"
    using wf by (cases "commandQueue st") (simp_all add: poll_def wf_defs log_def)
  have resp: "wf (snd (post_response parse body st))"
  proof (cases "parse body")
    case (Inl err)
    then show ?thesis using wf by (simp add: post_response_def http_error_def wf_log)
  next
    case (Inr r)
    let ?st1 = "log (ReceivedResponse r) (st\<lparr>next_alloc := Suc (next_alloc st)\<rparr>)"
    have wf1: "wf ?st1" using wf by (simp add: wf_log wf_alloc)
    show ?thesis
    proof (cases "requestId_of r")
      case None
      then show ?thesis using Inr wf1 by (simp add: post_response_def http_error_def wf_log)
    next
      case (Some requestId)
      show ?thesis
      proof (cases "map_of (pendingRequests ?st1) (key_of (next_alloc st) requestId)")
        case None
        then show ?thesis using Inr Some wf1 by (simp add: post_response_def)
      next
        case (Some p)
        from wf_settle [OF wf1 this] show ?thesis
          using Inr \<open>requestId_of r = Some requestId\<close> Some
          by (simp add: post_response_def http_error_def wf_log Let_def)
      qed
    qed
  qed
  show ?thesis using wf poll resp
    by (simp add: handle_request_def health_def not_found_def)
qed

lemma wf_step: "wf st \<Longrightarrow> wf (step parse ev st)"
proof (cases ev)
  case (Connect s)
  assume "wf st" then show ?thesis using Connect by (simp add: step_def wf_defs log_def)
next
  case (Data s chunk)
  assume "wf st" then show ?thesis using Data by (simp add: step_def wf_handle_data)
next
  case (End s)
  assume "wf st" then show ?thesis using End by (simp add: step_def wf_defs log_def)
next
  case (Error s msg)
  assume "wf st" then show ?thesis using Error by (simp add: step_def wf_log)
next
  case (Request m u b)
  assume "wf st" then show ?thesis using Request by (simp add: step_def wf_handle_request)
next
  case (Fire h)
  assume "wf st" then show ?thesis using Fire by (simp add: step_def wf_fire)
qed

lemma wf_run: "wf st \<Longrightarrow> wf (run parse evs st)"
  unfolding run_def by (induction evs arbitrary: st) (simp_all add: wf_step)

section \<open>The queue and the histories\<close>

lemma crashed_step: "crashed st \<noteq> None \<Longrightarrow> step parse ev st = st"
  by (simp add: step_def)

lemma crashed_run: "crashed st \<noteq> None \<Longrightarrow> run parse evs st = st"
  unfolding run_def by (induction evs) (simp_all add: crashed_step)

lemma alive_before:
  assumes "crashed (run parse evs st) = None" shows "crashed st = None"
proof (rule ccontr)
  assume dead: "crashed st \<noteq> None"
  then have "run parse evs st = st" by (rule crashed_run)
  with assms dead show False by simp
qed

lemma run_Cons: "run parse (ev # evs) st = run parse evs (step parse ev st)"
  by (simp add: run_def)

lemma run_snoc: "run parse (evs @ [ev]) st = step parse ev (run parse evs st)"
  by (simp add: run_def)

text \<open>Cutting at newlines, letter by letter, is what \<open>split_lines\<close> does to the buffer.\<close>

lemma split_lines_plain: "CHR 0x0A \<notin> set str \<Longrightarrow> split_lines str = [str]"
  by (induction str) auto

lemma split_lines_nonempty: "split_lines str \<noteq> []"
  by (induction str) (auto split: list.splits)

lemma split_lines_newline:
  "CHR 0x0A \<notin> set partial \<Longrightarrow>
   split_lines (partial @ CHR 0x0A # cs) = partial # split_lines cs"
  by (induction partial) (auto simp: split_lines_nonempty split: list.splits)

lemma feed_split:
  "CHR 0x0A \<notin> set partial \<Longrightarrow>
   feed partial chunk =
     (butlast (split_lines (partial @ chunk)), last (split_lines (partial @ chunk)))"
proof (induction chunk arbitrary: partial)
  case Nil
  then show ?case by (simp add: split_lines_plain)
next
  case (Cons c cs)
  show ?case
  proof (cases "c = CHR 0x0A")
    case True
    have "feed [] cs = (butlast (split_lines cs), last (split_lines cs))"
      using Cons.IH [of "[]"] by simp
    then show ?thesis
      using True Cons.prems by (simp add: split_lines_newline split_lines_nonempty)
  next
    case False
    then have "CHR 0x0A \<notin> set (partial @ [c])" using Cons.prems by simp
    from Cons.IH [OF this] show ?thesis using False by simp
  qed
qed

lemma last_split_lines_plain: "CHR 0x0A \<notin> set (last (split_lines str))"
  by (induction str) (auto simp: split_lines_nonempty split: list.splits)

text \<open>What the handlers do to the buffers and to the queue.\<close>

lemma buffers_reject: "buffers (reject s err st) = buffers st"
  by (simp add: reject_def socket_write_def log_def Let_def)

lemma buffers_handle_line: "buffers (handle_line parse s line st) = buffers st"
  by (simp add: handle_line_def buffers_reject Let_def setTimeout_def log_def
        split: sum.splits option.splits)

lemma buffers_fold_lines: "buffers (fold (handle_line parse s) ls st) = buffers st"
  by (induction ls arbitrary: st) (simp_all add: buffers_handle_line)

lemma buffer_handle_data:
  "buffer (handle_data parse s chunk st) =
     (buffer st)(s := last (split_lines (buffer st s @ chunk)))"
  by (simp add: fun_eq_iff buffer_def handle_data_def Let_def buffers_fold_lines update_conv')

text \<open>The request handler changes neither the buffers nor, but for a poll, the queue.\<close>

lemma post_response_frame:
  "buffers (snd (post_response parse body st)) = buffers st
   \<and> commandQueue (snd (post_response parse body st)) = commandQueue st"
proof (cases "parse body")
  case (Inl err)
  then show ?thesis by (simp add: post_response_def http_error_def log_def)
next
  case (Inr r)
  show ?thesis
  proof (cases "requestId_of r")
    case None
    then show ?thesis using Inr by (simp add: post_response_def http_error_def log_def)
  next
    case (Some requestId)
    then show ?thesis using Inr
      by (cases "map_of (pendingRequests st) (key_of (next_alloc st) requestId)")
         (simp_all add: post_response_def http_error_def settle_def socket_write_def log_def
            Let_def)
  qed
qed

lemma buffers_handle_request: "buffers (snd (handle_request parse m u b st)) = buffers st"
  by (cases "commandQueue st")
     (simp_all add: handle_request_def poll_def post_response_frame health_def not_found_def
        log_def)

lemma buffers_fire: "buffers (fire h st) = buffers st"
  by (simp add: fire_def expire_def socket_write_def Let_def split: option.splits)

lemma queue_reject: "commandQueue (reject s err st) = commandQueue st"
  by (simp add: reject_def socket_write_def log_def Let_def)

lemma queue_handle_line:
  "commandQueue (handle_line parse s line st) = commandQueue st @ accepted parse line"
  by (simp add: handle_line_def accepted_def queue_reject Let_def setTimeout_def log_def
        split: sum.splits option.splits)

lemma queue_fold_lines:
  "commandQueue (fold (handle_line parse s) ls st) = commandQueue st @ concat (map (accepted parse) ls)"
  by (induction ls arbitrary: st) (simp_all add: queue_handle_line)

lemma queue_handle_data:
  "commandQueue (handle_data parse s chunk st) =
     commandQueue st @ concat (map (accepted parse) (butlast (split_lines (buffer st s @ chunk))))"
  by (simp add: handle_data_def Let_def queue_fold_lines)

lemma queue_response: "commandQueue (snd (post_response parse body st)) = commandQueue st"
  by (simp add: post_response_frame)

lemma queue_fire: "commandQueue (fire h st) = commandQueue st"
  by (simp add: fire_def expire_def socket_write_def log_def Let_def split: option.splits)

lemma poll_takes_head:
  "crashed st = None \<Longrightarrow>
   polled_by parse (Request ''GET'' ''/poll'' body) st = take 1 (commandQueue st)
   \<and> commandQueue (step parse (Request ''GET'' ''/poll'' body) st) = drop 1 (commandQueue st)"
  by (cases "commandQueue st")
     (simp_all add: step_def polled_by_def handle_request_def poll_def log_def)

text \<open>
  One event: what it hands out and what it leaves in the queue, against what it submits; and
  the buffers after it are the partial lines after it.
\<close>

lemma queue_step:
  assumes "crashed st = None" and "\<forall>s. CHR 0x0A \<notin> set (buffer st s)"
  shows "polled_by parse ev st @ commandQueue (step parse ev st)
           @ concat (map (accepted parse) (arrivals (buffer (step parse ev st)) evs))
         = commandQueue st @ concat (map (accepted parse) (arrivals (buffer st) (ev # evs)))"
    and "\<forall>s. CHR 0x0A \<notin> set (buffer (step parse ev st) s)"
proof -
  have both: "polled_by parse ev st @ commandQueue (step parse ev st)
           @ concat (map (accepted parse) (arrivals (buffer (step parse ev st)) evs))
         = commandQueue st @ concat (map (accepted parse) (arrivals (buffer st) (ev # evs)))
      \<and> (\<forall>s. CHR 0x0A \<notin> set (buffer (step parse ev st) s))"
  proof (cases ev)
    case (Connect s)
    have "buffer (step parse ev st) = (buffer st)(s := [])"
      using assms(1) Connect by (simp add: fun_eq_iff step_def buffer_def log_def update_conv')
    then show ?thesis using assms Connect by (simp add: step_def polled_by_def log_def)
  next
    case (Data s chunk)
    have plain: "CHR 0x0A \<notin> set (buffer st s)" using assms(2) by simp
    show ?thesis
      using assms Data
      by (simp add: step_def polled_by_def queue_handle_data buffer_handle_data
            feed_split [OF plain] last_split_lines_plain)
  next
    case (End s)
    have "buffer (step parse ev st) = buffer st"
      using assms(1) End by (simp add: fun_eq_iff step_def buffer_def log_def)
    then show ?thesis using assms End by (simp add: step_def polled_by_def log_def)
  next
    case (Error s msg)
    have "buffer (step parse ev st) = buffer st"
      using assms(1) Error by (simp add: fun_eq_iff step_def buffer_def log_def)
    then show ?thesis using assms Error by (simp add: step_def polled_by_def log_def)
  next
    case (Request m u b)
    have buf: "buffer (step parse ev st) = buffer st"
      using assms(1) Request by (simp add: fun_eq_iff step_def buffer_def buffers_handle_request)
    show ?thesis
    proof (cases "m = ''GET'' \<and> u = ''/poll''")
      case True
      then show ?thesis
        using poll_takes_head [OF assms(1), of parse b] assms(2) Request buf
        by (cases "commandQueue st") simp_all
    next
      case False
      then have "commandQueue (step parse ev st) = commandQueue st"
        using assms(1) Request
        by (auto simp: step_def handle_request_def queue_response health_def not_found_def)
      then show ?thesis using False assms Request buf by (auto simp: polled_by_def)
    qed
  next
    case (Fire h)
    have "buffer (step parse ev st) = buffer st"
      using assms(1) Fire by (simp add: fun_eq_iff step_def buffer_def buffers_fire)
    then show ?thesis using assms Fire by (simp add: step_def polled_by_def queue_fire)
  qed
  from both show "polled_by parse ev st @ commandQueue (step parse ev st)
           @ concat (map (accepted parse) (arrivals (buffer (step parse ev st)) evs))
         = commandQueue st @ concat (map (accepted parse) (arrivals (buffer st) (ev # evs)))"
    and "\<forall>s. CHR 0x0A \<notin> set (buffer (step parse ev st) s)" by simp_all
qed

lemma queue_run:
  assumes "crashed (run parse evs st) = None" and "\<forall>s. CHR 0x0A \<notin> set (buffer st s)"
  shows "polled parse evs st @ commandQueue (run parse evs st) =
           commandQueue st @ concat (map (accepted parse) (arrivals (buffer st) evs))"
  using assms
proof (induction evs arbitrary: st)
  case Nil
  show ?case by (simp add: run_def)
next
  case (Cons ev evs)
  have alive: "crashed st = None" using Cons.prems(1) by (rule alive_before)
  have alive': "crashed (run parse evs (step parse ev st)) = None"
    using Cons.prems(1) by (simp add: run_Cons)
  note step = queue_step(1) [OF alive Cons.prems(2), where parse = parse and ev = ev and evs = evs]
    queue_step(2) [OF alive Cons.prems(2), where parse = parse and ev = ev]
  have "polled parse (ev # evs) st @ commandQueue (run parse (ev # evs) st)
      = polled_by parse ev st
          @ (polled parse evs (step parse ev st) @ commandQueue (run parse evs (step parse ev st)))"
    by (simp add: run_Cons)
  also have "\<dots> = polled_by parse ev st @ commandQueue (step parse ev st)
          @ concat (map (accepted parse) (arrivals (buffer (step parse ev st)) evs))"
    using Cons.IH [OF alive' step(2)] by simp
  also have "\<dots> = commandQueue st @ concat (map (accepted parse) (arrivals (buffer st) (ev # evs)))"
    by (rule step(1))
  finally show ?case .
qed

lemma polled_snoc:
  "polled parse (evs @ [ev]) st = polled parse evs st @ polled_by parse ev (run parse evs st)"
  by (induction evs arbitrary: st) (simp_all add: run_def)

lemma next_in_line: "xs @ q = zs \<Longrightarrow> xs @ take 1 q = take (Suc (length xs)) zs"
  by (cases q) auto

lemma buffer_init: "buffer init = (\<lambda>s. [])"
  by (simp add: fun_eq_iff buffer_def init_def)

section \<open>Facts about the worked inputs\<close>

lemma trim_samples:
  "trim ''oops'' \<noteq> []" "trim ''also not json'' \<noteq> []" "trim navigate_line \<noteq> []"
  "trim tabs_line \<noteq> []" "trim odd_line \<noteq> []" "trim ''null'' \<noteq> []"
  by (simp_all add: trim_def white_space_def navigate_line_def tabs_line_def odd_line_def)

lemma parse_samples:
  "sample_parse ''oops'' = Inl (SyntaxError oops_message)"
  "sample_parse ''also not json'' = Inl (SyntaxError also_message)"
  "sample_parse navigate_line = Inr navigate_command"
  "sample_parse tabs_line = Inr tabs_command"
  "sample_parse odd_line = Inr odd_command"
  "sample_parse result_text = Inr result_value"
  "sample_parse stray_text = Inr stray_value"
  "sample_parse ''null'' = Inr JNull"
  by (simp_all add: sample_parse_def navigate_line_def tabs_line_def odd_line_def
        result_text_def stray_text_def)

lemma requestId_samples:
  "requestId_of navigate_command = Some (JNum 1)" "requestId_of tabs_command = Some (JNum 1)"
  "requestId_of odd_command = Some (JObj [(''toString'', JNum 1)])"
  "requestId_of result_value = Some (JNum 1)" "requestId_of stray_value = Some (JNum 99)"
  by (simp_all add: navigate_command_def tabs_command_def odd_command_def result_value_def
        stray_value_def)

lemma split_lines_one: "CHR 0x0A \<notin> set line \<Longrightarrow> split_lines (line @ [CHR 0x0A]) = [line, []]"
  by (induction line) auto

lemma no_newline_samples:
  "CHR 0x0A \<notin> set navigate_line" "CHR 0x0A \<notin> set tabs_line" "CHR 0x0A \<notin> set odd_line"
  "CHR 0x0A \<notin> set ''null''" "CHR 0x0A \<notin> set ''oops''" "CHR 0x0A \<notin> set ''also not json''"
  by (simp_all add: navigate_line_def tabs_line_def odd_line_def)

text \<open>A chunk that is one whole line, arriving on a connection whose buffer is empty.\<close>

lemma handle_data_one:
  "CHR 0x0A \<notin> set line \<Longrightarrow> buffer st s = [] \<Longrightarrow>
   handle_data parse s (line @ [CHR 0x0A]) st =
     handle_line parse s line (st\<lparr>buffers := AList.update s [] (buffers st)\<rparr>)"
  by (simp add: handle_data_def split_lines_one)

text \<open>
  The states of the worked examples: after \<^verbatim>\<open>navigate\<close> was accepted from connection 0, and
  after \<^verbatim>\<open>get_tabs\<close>, with the same \<^verbatim>\<open>requestId\<close>, was then accepted from connection 1.
\<close>

lemma accept_navigate:
  "handle_line sample_parse 0 navigate_line init =
     \<lparr>pendingRequests = [(KPrim (JNum 1), \<lparr>socket = 0, timeout = 0\<rparr>)],
      commandQueue = [navigate_command],
      timers = [(0, \<lparr>t_command = navigate_command, t_alloc = 0, t_socket = 0, delay = 30000\<rparr>)],
      next_timer = 1, next_alloc = 1, buffers = [], closed = {}, writes = [], delivered = [],
      log_file = [ReceivedCommand navigate_command, QueuedCommand (JNum 1)], crashed = None\<rparr>"
  by (simp add: handle_line_def trim_samples parse_samples requestId_samples init_def
        setTimeout_def log_def Let_def)

lemma accept_tabs:
  "handle_line sample_parse 1 tabs_line (handle_line sample_parse 0 navigate_line init) =
     \<lparr>pendingRequests = [(KPrim (JNum 1), \<lparr>socket = 1, timeout = 1\<rparr>)],
      commandQueue = [navigate_command, tabs_command],
      timers = [(0, \<lparr>t_command = navigate_command, t_alloc = 0, t_socket = 0, delay = 30000\<rparr>),
                (1, \<lparr>t_command = tabs_command, t_alloc = 1, t_socket = 1, delay = 30000\<rparr>)],
      next_timer = 2, next_alloc = 2, buffers = [], closed = {}, writes = [], delivered = [],
      log_file = [ReceivedCommand navigate_command, QueuedCommand (JNum 1),
                  ReceivedCommand tabs_command, QueuedCommand (JNum 1)], crashed = None\<rparr>"
  by (simp add: accept_navigate)
     (simp add: handle_line_def trim_samples parse_samples requestId_samples
        setTimeout_def log_def Let_def)


text \<open>The same submission as events: connection 0 is opened and sends the line.\<close>

lemma one_pending:
  "run sample_parse [Connect 0, Data 0 (navigate_line @ [CHR 0x0A])] init =
     \<lparr>pendingRequests = [(KPrim (JNum 1), \<lparr>socket = 0, timeout = 0\<rparr>)],
      commandQueue = [navigate_command],
      timers = [(0, \<lparr>t_command = navigate_command, t_alloc = 0, t_socket = 0, delay = 30000\<rparr>)],
      next_timer = 1, next_alloc = 1, buffers = [(0, [])], closed = {}, writes = [], delivered = [],
      log_file = [ClientConnected, ReceivedCommand navigate_command, QueuedCommand (JNum 1)],
      crashed = None\<rparr>"
  by (simp add: run_def step_def init_def log_def buffer_def handle_data_def split_lines_one
        no_newline_samples handle_line_def trim_samples parse_samples requestId_samples
        setTimeout_def Let_def)

text \<open>Reachable states are well-formed.\<close>

lemma wf_reachable: "wf (run parse evs init)"
  by (rule wf_run [OF wf_init])

lemma size_is_key_count:
  "distinct (map fst al) \<Longrightarrow> length al = card (dom (map_of al))"
  by (metis dom_map_of_conv_image_fst distinct_card length_map list.set_map)

section \<open>The HTTP endpoints, one request at a time\<close>

text \<open>
  C9. \<^verbatim>\<open>GET /health\<close> answers 200 with the number of entries of \<^verbatim>\<open>pendingRequests\<close> and the
  length of \<^verbatim>\<open>commandQueue\<close>, and returns the state as it found it: the queue, the table and
  the timers are untouched. In every state the daemon can reach, the number of entries is the
  number of request identifiers with a pending call.
\<close>

theorem health_read_only:
  "handle_request parse ''GET'' ''/health'' body st =
     (\<lparr>status = 200, headers = [(''Content-Type'', ''application/json'')],
       content = Json (JObj [(''status'', JStr ''ok''),
                             (''pending'', JNum (int (length (pendingRequests st)))),
                             (''queued'', JNum (int (length (commandQueue st))))])\<rparr>, st)
   \<and> length (pendingRequests (run parse evs init)) =
       card (dom (map_of (pendingRequests (run parse evs init))))"
proof -
  have "keys_ok (run parse evs init)" using wf_reachable [of parse evs] by (simp add: wf_def)
  then show ?thesis
    by (simp add: handle_request_def health_def json_header_def keys_ok_def size_is_key_count)
qed

text \<open>With one command accepted and not yet polled, the report is one pending, one queued.\<close>

theorem health_read_only_witness:
  "handle_request sample_parse ''GET'' ''/health'' [] (handle_line sample_parse 0 navigate_line init) =
     (\<lparr>status = 200, headers = [(''Content-Type'', ''application/json'')],
       content = Json (JObj [(''status'', JStr ''ok''), (''pending'', JNum 1), (''queued'', JNum 1)])\<rparr>,
      handle_line sample_parse 0 navigate_line init)"
  using health_read_only [of sample_parse "[]" "handle_line sample_parse 0 navigate_line init" "[]"]
  by (simp add: accept_navigate)

text \<open>
  C5. \<^verbatim>\<open>GET /poll\<close> on a non-empty queue answers 200 with the head command and removes exactly
  that command (nothing else changes but the log); on an empty queue it answers 204 with no
  body and leaves the whole state as it was.
\<close>

theorem poll_dequeues_head:
  "(commandQueue st = command # rest \<longrightarrow>
      handle_request parse ''GET'' ''/poll'' body st =
        (\<lparr>status = 200, headers = [(''Content-Type'', ''application/json'')],
          content = Json command\<rparr>,
         st\<lparr>commandQueue := rest, log_file := log_file st @ [SendingCommand command]\<rparr>))
   \<and> (commandQueue st = [] \<longrightarrow>
      handle_request parse ''GET'' ''/poll'' body st =
        (\<lparr>status = 204, headers = [], content = NoBody\<rparr>, st))"
  by (simp add: handle_request_def poll_def log_def json_header_def)

text \<open>
  A queue of two commands gives up its first one; the empty queue of the initial state gives
  204.
\<close>

theorem poll_dequeues_head_witness:
  "commandQueue (init\<lparr>commandQueue := [navigate_command, tabs_command]\<rparr>) = navigate_command # [tabs_command]
   \<and> handle_request sample_parse ''GET'' ''/poll'' [] (init\<lparr>commandQueue := [navigate_command, tabs_command]\<rparr>) =
        (\<lparr>status = 200, headers = [(''Content-Type'', ''application/json'')],
          content = Json navigate_command\<rparr>,
         init\<lparr>commandQueue := [tabs_command], log_file := [SendingCommand navigate_command]\<rparr>)
   \<and> commandQueue init = []
   \<and> handle_request sample_parse ''GET'' ''/poll'' [] init =
        (\<lparr>status = 204, headers = [], content = NoBody\<rparr>, init)"
  using poll_dequeues_head [of "init\<lparr>commandQueue := [navigate_command, tabs_command]\<rparr>"
          navigate_command "[tabs_command]" sample_parse "[]"]
        poll_dequeues_head [of init navigate_command "[]" sample_parse "[]"]
  by (simp add: init_def)

text \<open>
  C3. A \<^verbatim>\<open>POST /response\<close> whose body parses and whose \<^verbatim>\<open>requestId\<close> has no entry in
  \<^verbatim>\<open>pendingRequests\<close> is answered 200 \<^verbatim>\<open>OK\<close>; it changes nothing but the log (and the count
  of parses): table, queue, timers and the writes to clients stay as they were. In every
  state the daemon can reach, posting the same body a second time is such a request, whatever
  the first one did.
\<close>

theorem completion_without_pending_call:
  assumes "parse body = Inr result" and "requestId_of result = Some requestId"
  shows "(map_of (pendingRequests st) (key_of (next_alloc st) requestId) = None \<longrightarrow>
            handle_request parse ''POST'' ''/response'' body st =
              (\<lparr>status = 200, headers = [], content = Text ''OK''\<rparr>,
               st\<lparr>next_alloc := Suc (next_alloc st),
                  log_file := log_file st @ [ReceivedResponse result]\<rparr>))
       \<and> (st = run parse evs init \<longrightarrow>
            handle_request parse ''POST'' ''/response'' body
                (snd (handle_request parse ''POST'' ''/response'' body st)) =
              (\<lparr>status = 200, headers = [], content = Text ''OK''\<rparr>,
               (snd (handle_request parse ''POST'' ''/response'' body st))
                 \<lparr>next_alloc := Suc (Suc (next_alloc st)),
                  log_file := log_file (snd (handle_request parse ''POST'' ''/response'' body st))
                                @ [ReceivedResponse result]\<rparr>))"
proof (intro conjI impI)
  have absent: "handle_request parse ''POST'' ''/response'' body s =
      (\<lparr>status = 200, headers = [], content = Text ''OK''\<rparr>,
       s\<lparr>next_alloc := Suc (next_alloc s), log_file := log_file s @ [ReceivedResponse result]\<rparr>)"
    if "map_of (pendingRequests s) (key_of (next_alloc s) requestId) = None" for s
    using assms that
    by (simp add: handle_request_def post_response_def ok_reply_def log_def Let_def)
  {
    assume "map_of (pendingRequests st) (key_of (next_alloc st) requestId) = None"
    then show "handle_request parse ''POST'' ''/response'' body st =
              (\<lparr>status = 200, headers = [], content = Text ''OK''\<rparr>,
               st\<lparr>next_alloc := Suc (next_alloc st),
                  log_file := log_file st @ [ReceivedResponse result]\<rparr>)"
      by (rule absent)
  }
  assume reach: "st = run parse evs init"
  let ?k = "key_of (next_alloc st) requestId"
  let ?st0 = "log (ReceivedResponse result) (st\<lparr>next_alloc := Suc (next_alloc st)\<rparr>)"
  let ?st1 = "snd (handle_request parse ''POST'' ''/response'' body st)"
  have wf1: "wf ?st1"
    using reach wf_reachable [of parse evs] by (simp add: wf_handle_request)
  have after: "next_alloc ?st1 = Suc (next_alloc st) \<and> map_of (pendingRequests ?st1) ?k = None"
  proof (cases "map_of (pendingRequests st) ?k")
    case None
    then show ?thesis
      using assms by (simp add: handle_request_def post_response_def log_def Let_def)
  next
    case (Some p)
    then show ?thesis
      using assms
      by (simp add: handle_request_def post_response_def http_error_def settle_def
            socket_write_def log_def Let_def delete_conv')
  qed
  then have na: "next_alloc ?st1 = Suc (next_alloc st)"
    and gone: "map_of (pendingRequests ?st1) ?k = None" by simp_all
  have "map_of (pendingRequests ?st1) (key_of (next_alloc ?st1) requestId) = None"
  proof (cases "\<exists>a. key_of (next_alloc ?st1) requestId = KRef a")
    case True
    then have "key_of (next_alloc ?st1) requestId = KRef (next_alloc ?st1)"
      by (auto dest: key_of_ref [OF sym])
    then show ?thesis using wf1 by (simp add: wf_def fresh_ref)
  next
    case False
    then have "key_of (next_alloc ?st1) requestId = ?k" by (cases requestId) simp_all
    then show ?thesis using gone by simp
  qed
  from absent [OF this]
  show "handle_request parse ''POST'' ''/response'' body ?st1 =
      (\<lparr>status = 200, headers = [], content = Text ''OK''\<rparr>,
       ?st1\<lparr>next_alloc := Suc (Suc (next_alloc st)),
            log_file := log_file ?st1 @ [ReceivedResponse result]\<rparr>)"
    by (simp add: na)
qed


text \<open>
  The executor posts a result for \<^verbatim>\<open>requestId\<close> 99, which nobody submitted, while the call
  with \<^verbatim>\<open>requestId\<close> 1 is pending: 200 \<^verbatim>\<open>OK\<close>, and the pending call is untouched. A result for
  \<^verbatim>\<open>requestId\<close> 1 posted twice: the second post finds no entry.
\<close>

theorem completion_without_pending_call_witness:
  "sample_parse stray_text = Inr stray_value \<and> requestId_of stray_value = Some (JNum 99)
   \<and> map_of (pendingRequests (handle_line sample_parse 0 navigate_line init))
        (key_of (next_alloc (handle_line sample_parse 0 navigate_line init)) (JNum 99)) = None
   \<and> fst (handle_request sample_parse ''POST'' ''/response'' stray_text
            (handle_line sample_parse 0 navigate_line init)) =
        \<lparr>status = 200, headers = [], content = Text ''OK''\<rparr>
   \<and> pendingRequests (snd (handle_request sample_parse ''POST'' ''/response'' stray_text
            (handle_line sample_parse 0 navigate_line init))) =
        [(KPrim (JNum 1), \<lparr>socket = 0, timeout = 0\<rparr>)]
   \<and> writes (snd (handle_request sample_parse ''POST'' ''/response'' stray_text
            (handle_line sample_parse 0 navigate_line init))) = []
   \<and> init = run sample_parse [] init
   \<and> fst (handle_request sample_parse ''POST'' ''/response'' result_text
            (snd (handle_request sample_parse ''POST'' ''/response'' result_text init))) =
        \<lparr>status = 200, headers = [], content = Text ''OK''\<rparr>"
  using completion_without_pending_call [where parse = sample_parse and body = stray_text
          and result = stray_value and requestId = "JNum 99"
          and st = "handle_line sample_parse 0 navigate_line init" and evs = "[]"]
        completion_without_pending_call [where parse = sample_parse and body = result_text
          and result = result_value and requestId = "JNum 1" and st = init and evs = "[]"]
  by (simp add: parse_samples requestId_samples accept_navigate run_def)


text \<open>An entry that a result or a new line finds under its key has a primitive key.\<close>

lemma found_key_printable:
  assumes "wf st" and "map_of (pendingRequests st) (key_of a requestId) = Some p"
    and "next_alloc st \<le> a"
  shows "\<not> unprintable requestId"
proof (cases "\<exists>b. key_of a requestId = KRef b")
  case True
  then have "key_of a requestId = KRef a" by (auto dest: key_of_ref [OF sym])
  then show ?thesis
    using assms by (simp add: wf_def fresh_ref)
next
  case False
  then show ?thesis by (cases requestId) simp_all
qed

section \<open>Lines that are answered with a failure\<close>

text \<open>
  When \<^verbatim>\<open>JSON.parse\<close> throws on a line, the handler writes one failure result to the
  submitting connection and changes neither \<^verbatim>\<open>pendingRequests\<close> nor \<^verbatim>\<open>commandQueue\<close>; no timer
  is armed.
\<close>

lemma syntax_error_rejected:
  assumes "trim line \<noteq> []" and "parse line = Inl err"
  shows "pendingRequests (handle_line parse s line st) = pendingRequests st
       \<and> commandQueue (handle_line parse s line st) = commandQueue st
       \<and> timers (handle_line parse s line st) = timers st
       \<and> next_timer (handle_line parse s line st) = next_timer st
       \<and> writes (handle_line parse s line st) =
           writes st @ [\<lparr>w_socket = s,
                          w_data = JObj [(''success'', JBool False), (''error'', JStr (message err))],
                          w_origin = Rejection\<rparr>]"
  using assms by (simp add: handle_line_def reject_def socket_write_def log_def Let_def)

text \<open>
  The text \<^verbatim>\<open>null\<close> does parse. Reading its \<^verbatim>\<open>requestId\<close> throws after \<^verbatim>\<open>setTimeout\<close> has been
  called: the line is answered like a line that does not parse, but a timer stays armed.
\<close>

lemma null_line_leaves_timer:
  assumes "trim line \<noteq> []" and "parse line = Inr JNull"
  shows "pendingRequests (handle_line parse s line st) = pendingRequests st
       \<and> commandQueue (handle_line parse s line st) = commandQueue st
       \<and> timers (handle_line parse s line st) =
           timers st @ [(next_timer st, \<lparr>t_command = JNull, t_alloc = next_alloc st,
                                           t_socket = s, delay = 30000\<rparr>)]
       \<and> writes (handle_line parse s line st) =
           writes st @ [\<lparr>w_socket = s,
                          w_data = JObj [(''success'', JBool False),
                                         (''error'', JStr (message (read_error JNull)))],
                          w_origin = Rejection\<rparr>]"
  using assms
  by (simp add: handle_line_def reject_def socket_write_def setTimeout_def log_def Let_def)

text \<open>
  C6 does not hold of the code. The line \<^verbatim>\<open>null\<close> is no command and is answered with a failure
  result; neither \<^verbatim>\<open>pendingRequests\<close> nor \<^verbatim>\<open>commandQueue\<close> changes. But the failure is only
  met after \<^verbatim>\<open>setTimeout\<close> ran: a timer is armed for the rejected line, and when it fires its
  callback throws and the process ends.
\<close>

theorem null_line_arms_timer:
  "pendingRequests (run sample_parse [Connect 0, Data 0 (''null'' @ [CHR 0x0A])] init) = []
   \<and> commandQueue (run sample_parse [Connect 0, Data 0 (''null'' @ [CHR 0x0A])] init) = []
   \<and> writes (run sample_parse [Connect 0, Data 0 (''null'' @ [CHR 0x0A])] init) =
       [\<lparr>w_socket = 0,
          w_data = JObj [(''success'', JBool False),
                         (''error'', JStr ''Cannot read properties of null (reading 'requestId')'')],
          w_origin = Rejection\<rparr>]
   \<and> timers (run sample_parse [Connect 0, Data 0 (''null'' @ [CHR 0x0A])] init) =
       [(0, \<lparr>t_command = JNull, t_alloc = 0, t_socket = 0, delay = 30000\<rparr>)]
   \<and> crashed (run sample_parse [Connect 0, Data 0 (''null'' @ [CHR 0x0A]), Fire 0] init) =
       Some (TypeError ''Cannot read properties of null (reading 'requestId')'')"
  by (simp add: run_def step_def init_def log_def buffer_def handle_data_def split_lines_one
        handle_line_def trim_samples parse_samples reject_def socket_write_def setTimeout_def
        read_error_def type_name_def Let_def fire_def expire_def)

text \<open>
  C10, as the specification states it, fails on its conclusion. The failure result carries
  the parser's message, and Node's message quotes the text it could not parse: two lines that
  do not parse, sent on one connection, are answered with two different results, each naming
  its line.
\<close>

theorem failure_results_differ_counterexample:
  "map w_data (writes (handle_line sample_parse 0 ''oops'' init)) =
     [JObj [(''success'', JBool False), (''error'', JStr oops_message)]]
   \<and> map w_data (writes (handle_line sample_parse 0 ''also not json'' init)) =
     [JObj [(''success'', JBool False), (''error'', JStr also_message)]]
   \<and> take 4 (drop 23 oops_message) = ''oops''
   \<and> take 13 (drop 23 also_message) = ''also not json''
   \<and> map w_data (writes (handle_line sample_parse 0 ''oops'' init)) \<noteq>
       map w_data (writes (handle_line sample_parse 0 ''also not json'' init))"
  by (simp add: handle_line_def trim_samples parse_samples reject_def socket_write_def log_def
        init_def Let_def oops_message_def also_message_def)

text \<open>
  C10, amended. The failure result written for a line that does not parse is the object
  \<^verbatim>\<open>{ success: false, error }\<close> with the parser's message: it has no \<^verbatim>\<open>requestId\<close> property.
  The submission enters it through that message alone: lines from one connection whose parse
  errors carry the same message are answered with the same write.
\<close>

theorem parse_failure_carries_no_requestId:
  assumes "trim line \<noteq> []" and "parse line = Inl err"
    and "trim line' \<noteq> []" and "parse line' = Inl err'" and "message err' = message err"
  shows "map w_data (drop (length (writes st)) (writes (handle_line parse s line st))) =
           [JObj [(''success'', JBool False), (''error'', JStr (message err))]]
       \<and> map_of [(''success'', JBool False), (''error'', JStr (message err))] ''requestId'' = None
       \<and> writes (handle_line parse s line' st) = writes (handle_line parse s line st)"
  using assms by (simp add: handle_line_def reject_def socket_write_def log_def Let_def)

text \<open>The text \<^verbatim>\<open>oops\<close> sent twice on connection 0, once before and once after another line.\<close>

theorem parse_failure_carries_no_requestId_witness:
  "trim ''oops'' \<noteq> [] \<and> sample_parse ''oops'' = Inl (SyntaxError oops_message)
   \<and> message (SyntaxError oops_message) = message (SyntaxError oops_message)
   \<and> map w_data (drop (length (writes (handle_line sample_parse 0 ''also not json'' init)))
        (writes (handle_line sample_parse 0 ''oops''
                   (handle_line sample_parse 0 ''also not json'' init)))) =
        [JObj [(''success'', JBool False), (''error'', JStr oops_message)]]
   \<and> map w_data (writes (handle_line sample_parse 0 ''oops'' init)) =
        [JObj [(''success'', JBool False), (''error'', JStr oops_message)]]"
  using parse_failure_carries_no_requestId [where parse = sample_parse and line = "''oops''"
          and err = "SyntaxError oops_message" and line' = "''oops''"
          and err' = "SyntaxError oops_message" and s = 0
          and st = "handle_line sample_parse 0 ''also not json'' init"]
        parse_failure_carries_no_requestId [where parse = sample_parse and line = "''oops''"
          and err = "SyntaxError oops_message" and line' = "''oops''"
          and err' = "SyntaxError oops_message" and s = 0 and st = init]
  by (simp add: trim_samples parse_samples init_def)


section \<open>Resolving a pending call\<close>

lemma fire_armed:
  "map_of (timers st) h = Some t \<Longrightarrow> fire h st = expire h t (st\<lparr>timers := AList.delete h (timers st)\<rparr>)"
  by (simp add: fire_def)

lemma fire_found:
  assumes "map_of (timers st) h = Some t" and "requestId_of (t_command t) = Some requestId"
    and "map_of (pendingRequests st) (key_of (t_alloc t) requestId) = Some p"
  shows "fire h st =
     st\<lparr>timers := AList.delete h (timers st),
        pendingRequests := AList.delete (key_of (t_alloc t) requestId) (pendingRequests st),
        writes := writes st @ [\<lparr>w_socket = t_socket t, w_data = timeout_result requestId,
                                 w_origin = Expiry h\<rparr>],
        delivered := delivered st @
          (if t_socket t \<in> closed st then []
           else [\<lparr>w_socket = t_socket t, w_data = timeout_result requestId, w_origin = Expiry h\<rparr>])\<rparr>"
  using assms by (simp add: fire_armed expire_def socket_write_def Let_def)

lemma fire_absent:
  assumes "map_of (timers st) h = Some t" and "requestId_of (t_command t) = Some requestId"
    and "map_of (pendingRequests st) (key_of (t_alloc t) requestId) = None"
  shows "fire h st = st\<lparr>timers := AList.delete h (timers st)\<rparr>"
  using assms by (simp add: fire_armed expire_def Let_def)

text \<open>
  In every state the daemon can reach, the writes made by the completion that cancelled the
  timer \<open>h\<close> or by the expiry of that timer are at most one, and an entry belongs to a call
  whose timer is still armed and closes over the entry's socket and key.
\<close>

lemma completion_or_expiry_once:
  "length (results_for h (writes (run parse evs init))) \<le> 1
   \<and> (map_of (pendingRequests (run parse evs init)) k = Some p \<longrightarrow>
        (\<exists>t. map_of (timers (run parse evs init)) (timeout p) = Some t \<and> t_socket t = socket p
           \<and> (\<exists>requestId. requestId_of (t_command t) = Some requestId
                 \<and> key_of (t_alloc t) requestId = k)))"
proof -
  have "results_ok (run parse evs init)" "entries_ok (run parse evs init)"
    using wf_reachable [of parse evs] by (simp_all add: wf_def)
  then show ?thesis unfolding results_ok_def entries_ok_def by blast
qed

text \<open>
  C1 does not hold of the code. The line below carries a \<^verbatim>\<open>requestId\<close> that cannot be
  converted to a string. It is accepted: its entry is in \<^verbatim>\<open>pendingRequests\<close>, its timer is
  armed, its command is queued. The log line that follows throws, and the \<^verbatim>\<open>catch\<close> block
  answers the client with a failure. Nothing completes the call; when its timer expires the
  entry is still there, and the client is answered a second time, with the timeout: two
  results for one accepted submission.
\<close>

theorem one_call_two_results:
  "pendingRequests (run sample_parse [Connect 0, Data 0 (odd_line @ [CHR 0x0A])] init) =
     [(KRef 0, \<lparr>socket = 0, timeout = 0\<rparr>)]
   \<and> commandQueue (run sample_parse [Connect 0, Data 0 (odd_line @ [CHR 0x0A])] init) = [odd_command]
   \<and> timers (run sample_parse [Connect 0, Data 0 (odd_line @ [CHR 0x0A])] init) =
       [(0, \<lparr>t_command = odd_command, t_alloc = 0, t_socket = 0, delay = 30000\<rparr>)]
   \<and> writes (run sample_parse [Connect 0, Data 0 (odd_line @ [CHR 0x0A])] init) =
       [\<lparr>w_socket = 0,
          w_data = JObj [(''success'', JBool False),
                         (''error'', JStr ''Cannot convert object to primitive value'')],
          w_origin = Rejection\<rparr>]
   \<and> writes (run sample_parse [Connect 0, Data 0 (odd_line @ [CHR 0x0A]), Fire 0] init) =
       [\<lparr>w_socket = 0,
          w_data = JObj [(''success'', JBool False),
                         (''error'', JStr ''Cannot convert object to primitive value'')],
          w_origin = Rejection\<rparr>,
        \<lparr>w_socket = 0,
          w_data = JObj [(''requestId'', JObj [(''toString'', JNum 1)]), (''success'', JBool False),
                         (''error'', JStr ''Timeout waiting for extension response'')],
          w_origin = Expiry 0\<rparr>]
   \<and> delivered (run sample_parse [Connect 0, Data 0 (odd_line @ [CHR 0x0A]), Fire 0] init) =
       writes (run sample_parse [Connect 0, Data 0 (odd_line @ [CHR 0x0A]), Fire 0] init)"
  by (simp add: run_def step_def init_def log_def buffer_def handle_data_def split_lines_one
        no_newline_samples handle_line_def trim_samples parse_samples requestId_samples
        reject_def socket_write_def setTimeout_def convert_error_def timeout_result_def
        Let_def fire_def expire_def)

section \<open>Timeouts\<close>

lemma timer_of_accepted_line:
  assumes "timers_ok st" and "trim line \<noteq> []" and "parse line = Inr command"
    and "requestId_of command = Some requestId"
  shows "map_of (timers (handle_line parse s line st)) (next_timer st) =
           Some \<lparr>t_command = command, t_alloc = next_alloc st, t_socket = s, delay = 30000\<rparr>"
proof -
  have "timers_ok (log (ReceivedCommand command) (st\<lparr>next_alloc := Suc (next_alloc st)\<rparr>))"
    using assms(1) by (simp add: timers_ok_def log_def)
  from timers_setTimeout [OF this] show ?thesis
    using assms(2-4)
    by (simp add: handle_line_def Let_def log_def reject_def socket_write_def)
qed

text \<open>
  C2, as the specification states it, fails on the text of the error. The client submits
  \<^verbatim>\<open>navigate\<close> with \<^verbatim>\<open>requestId\<close> 1, nothing completes it, and its timer fires: the one result
  written says \<^verbatim>\<open>Timeout waiting for extension response\<close>, which is not the result the claim
  gives.
\<close>

theorem timeout_message_counterexample:
  "map_of (timers (run sample_parse [Connect 0, Data 0 (navigate_line @ [CHR 0x0A])] init)) 0 =
     Some \<lparr>t_command = navigate_command, t_alloc = 0, t_socket = 0, delay = 30000\<rparr>
   \<and> map_of (pendingRequests (run sample_parse [Connect 0, Data 0 (navigate_line @ [CHR 0x0A])] init))
         (KPrim (JNum 1)) = Some \<lparr>socket = 0, timeout = 0\<rparr>
   \<and> map w_data (writes (fire 0 (run sample_parse [Connect 0, Data 0 (navigate_line @ [CHR 0x0A])] init))) =
       [JObj [(''requestId'', JNum 1), (''success'', JBool False),
              (''error'', JStr ''Timeout waiting for extension response'')]]
   \<and> map w_data (writes (fire 0 (run sample_parse [Connect 0, Data 0 (navigate_line @ [CHR 0x0A])] init))) \<noteq>
       [JObj [(''requestId'', JNum 1), (''success'', JBool False),
              (''error'', JStr ''Timeout waiting for executor response'')]]"
  unfolding one_pending
  by (simp add: fire_def expire_def requestId_samples socket_write_def timeout_result_def Let_def)

text \<open>
  C2, amended. In every state the daemon can reach, an armed timer was set for 30000
  milliseconds. When it fires while an entry for its command's \<^verbatim>\<open>requestId\<close> is in
  \<^verbatim>\<open>pendingRequests\<close>, that entry is removed and exactly one result is written, to the socket of
  the submission that armed the timer: \<^verbatim>\<open>requestId\<close>, \<^verbatim>\<open>success: false\<close> and the error
  \<^verbatim>\<open>Timeout waiting for extension response\<close>. The timer armed by an accepted line closes over
  that line's command and socket.
\<close>

theorem timeout_failure_written:
  assumes "st = run parse evs init" and "map_of (timers st) h = Some t"
    and "requestId_of (t_command t) = Some requestId"
    and "map_of (pendingRequests st) (key_of (t_alloc t) requestId) = Some p"
  shows "delay t = 30000
       \<and> pendingRequests (fire h st) =
           AList.delete (key_of (t_alloc t) requestId) (pendingRequests st)
       \<and> map_of (pendingRequests (fire h st)) (key_of (t_alloc t) requestId) = None
       \<and> map_of (timers (fire h st)) h = None
       \<and> writes (fire h st) =
           writes st @ [\<lparr>w_socket = t_socket t,
                          w_data = JObj [(''requestId'', requestId), (''success'', JBool False),
                                         (''error'', JStr ''Timeout waiting for extension response'')],
                          w_origin = Expiry h\<rparr>]
       \<and> (trim line \<noteq> [] \<and> parse line = Inr command \<and> requestId_of command = Some requestId'
            \<longrightarrow> map_of (timers (handle_line parse s line st)) (next_timer st) =
                  Some \<lparr>t_command = command, t_alloc = next_alloc st, t_socket = s, delay = 30000\<rparr>)"
proof -
  have ok: "timers_ok st" using assms(1) wf_reachable [of parse evs] by (simp add: wf_def)
  then have "delay t = 30000"
    using assms(2) unfolding timers_ok_def by (meson map_of_SomeD)
  moreover note fire_found [OF assms(2-4)] timer_of_accepted_line [OF ok]
  ultimately show ?thesis by (simp add: delete_conv' timeout_result_def)
qed

text \<open>The timer of the call with \<^verbatim>\<open>requestId\<close> 1 fires before the executor has polled.\<close>

theorem timeout_failure_written_witness:
  "run sample_parse [Connect 0, Data 0 (navigate_line @ [CHR 0x0A])] init =
     run sample_parse [Connect 0, Data 0 (navigate_line @ [CHR 0x0A])] init
   \<and> map_of (timers (run sample_parse [Connect 0, Data 0 (navigate_line @ [CHR 0x0A])] init)) 0 =
       Some \<lparr>t_command = navigate_command, t_alloc = 0, t_socket = 0, delay = 30000\<rparr>
   \<and> requestId_of navigate_command = Some (JNum 1)
   \<and> map_of (pendingRequests (run sample_parse [Connect 0, Data 0 (navigate_line @ [CHR 0x0A])] init))
         (key_of 0 (JNum 1)) = Some \<lparr>socket = 0, timeout = 0\<rparr>
   \<and> pendingRequests (fire 0 (run sample_parse [Connect 0, Data 0 (navigate_line @ [CHR 0x0A])] init)) = []
   \<and> writes (fire 0 (run sample_parse [Connect 0, Data 0 (navigate_line @ [CHR 0x0A])] init)) =
       [\<lparr>w_socket = 0,
          w_data = JObj [(''requestId'', JNum 1), (''success'', JBool False),
                         (''error'', JStr ''Timeout waiting for extension response'')],
          w_origin = Expiry 0\<rparr>]
   \<and> trim tabs_line \<noteq> [] \<and> sample_parse tabs_line = Inr tabs_command
   \<and> requestId_of tabs_command = Some (JNum 1)
   \<and> map_of (timers (handle_line sample_parse 1 tabs_line
         (run sample_parse [Connect 0, Data 0 (navigate_line @ [CHR 0x0A])] init))) 1 =
       Some \<lparr>t_command = tabs_command, t_alloc = 1, t_socket = 1, delay = 30000\<rparr>"
  using timeout_failure_written [where parse = sample_parse
          and evs = "[Connect 0, Data 0 (navigate_line @ [CHR 0x0A])]"
          and st = "run sample_parse [Connect 0, Data 0 (navigate_line @ [CHR 0x0A])] init"
          and h = 0 and requestId = "JNum 1" and p = "\<lparr>socket = 0, timeout = 0\<rparr>"
          and t = "\<lparr>t_command = navigate_command, t_alloc = 0, t_socket = 0, delay = 30000\<rparr>"
          and line = tabs_line and command = tabs_command and requestId' = "JNum 1" and s = 1]
  unfolding one_pending
  by (simp add: trim_samples parse_samples requestId_samples)



section \<open>Two calls with one request identifier\<close>

lemma update_present_keys: "map_of al k = Some v \<Longrightarrow> map fst (AList.update k v' al) = map fst al"
  by (simp add: update_keys) (metis domI dom_map_of_conv_image_fst list.set_map)

lemma accepted_line:
  assumes "trim line \<noteq> []" and "parse line = Inr command"
    and "requestId_of command = Some requestId" and "\<not> unprintable requestId"
  shows "handle_line parse s line st =
     st\<lparr>next_alloc := Suc (next_alloc st),
        timers := timers st @ [(next_timer st, \<lparr>t_command = command, t_alloc = next_alloc st,
                                                t_socket = s, delay = 30000\<rparr>)],
        next_timer := Suc (next_timer st),
        pendingRequests := AList.update (key_of (next_alloc st) requestId)
                             \<lparr>socket = s, timeout = next_timer st\<rparr> (pendingRequests st),
        commandQueue := commandQueue st @ [command],
        log_file := log_file st @ [ReceivedCommand command, QueuedCommand requestId]\<rparr>"
  using assms by (simp add: handle_line_def setTimeout_def log_def Let_def)

text \<open>
  C7. In a state the daemon has reached, a line is accepted whose \<^verbatim>\<open>requestId\<close> is the key of
  an entry already in \<^verbatim>\<open>pendingRequests\<close>, while the timer \<open>h\<close> of an earlier call with that
  key is armed. The entry is replaced by the new call's socket and timer, the keys of the
  table stay as they were (one entry for the key), and the earlier timer stays armed. When
  that timer fires it removes the entry now under the key and writes the timeout failure to
  the socket of the earlier call.
\<close>

theorem duplicate_requestId_replaces_entry:
  assumes "st = run parse evs init"
    and "map_of (timers st) h = Some t" and "requestId_of (t_command t) = Some requestId"
    and "map_of (pendingRequests st) (key_of (t_alloc t) requestId) = Some p"
    and "trim line \<noteq> []" and "parse line = Inr command"
    and "requestId_of command = Some requestId'"
    and "key_of (next_alloc st) requestId' = key_of (t_alloc t) requestId"
  shows "map_of (pendingRequests (handle_line parse s line st)) (key_of (t_alloc t) requestId) =
           Some \<lparr>socket = s, timeout = next_timer st\<rparr>
       \<and> map fst (pendingRequests (handle_line parse s line st)) = map fst (pendingRequests st)
       \<and> map_of (timers (handle_line parse s line st)) h = Some t
       \<and> map_of (pendingRequests (fire h (handle_line parse s line st)))
            (key_of (t_alloc t) requestId) = None
       \<and> writes (fire h (handle_line parse s line st)) =
           writes st @ [\<lparr>w_socket = t_socket t,
                          w_data = JObj [(''requestId'', requestId), (''success'', JBool False),
                                         (''error'', JStr ''Timeout waiting for extension response'')],
                          w_origin = Expiry h\<rparr>]"
proof -
  let ?k = "key_of (t_alloc t) requestId"
  let ?st1 = "handle_line parse s line st"
  have "wf st" unfolding assms(1) by (rule wf_reachable)
  moreover have "map_of (pendingRequests st) (key_of (next_alloc st) requestId') = Some p"
    using assms(4) by (simp add: assms(8))
  ultimately have printable: "\<not> unprintable requestId'"
    by (rule found_key_printable) simp
  note st1 = accepted_line [where parse = parse and line = line and s = s and st = st,
      OF assms(5-7) printable]
  have entry: "map_of (pendingRequests ?st1) ?k = Some \<lparr>socket = s, timeout = next_timer st\<rparr>"
    by (simp add: st1 assms(8) update_conv')
  have keys: "map fst (pendingRequests ?st1) = map fst (pendingRequests st)"
    using assms(4) by (simp add: st1 assms(8) update_present_keys)
  have armed: "map_of (timers ?st1) h = Some t"
    using assms(2) by (simp add: st1 map_add_Some_iff)
  have w: "writes ?st1 = writes st" by (simp add: st1)
  from fire_found [OF armed assms(3) entry] show ?thesis
    using entry keys armed by (simp add: delete_conv' timeout_result_def w)
qed

lemma second_call_accepted:
  "handle_line sample_parse 1 tabs_line
       (run sample_parse [Connect 0, Data 0 (navigate_line @ [CHR 0x0A])] init) =
     \<lparr>pendingRequests = [(KPrim (JNum 1), \<lparr>socket = 1, timeout = 1\<rparr>)],
      commandQueue = [navigate_command, tabs_command],
      timers = [(0, \<lparr>t_command = navigate_command, t_alloc = 0, t_socket = 0, delay = 30000\<rparr>),
                (1, \<lparr>t_command = tabs_command, t_alloc = 1, t_socket = 1, delay = 30000\<rparr>)],
      next_timer = 2, next_alloc = 2, buffers = [(0, [])], closed = {}, writes = [], delivered = [],
      log_file = [ClientConnected, ReceivedCommand navigate_command, QueuedCommand (JNum 1),
                  ReceivedCommand tabs_command, QueuedCommand (JNum 1)], crashed = None\<rparr>"
  unfolding one_pending
  by (simp add: handle_line_def trim_samples parse_samples requestId_samples
        setTimeout_def log_def Let_def)

lemma first_timer_fired:
  "fire 0 (handle_line sample_parse 1 tabs_line
       (run sample_parse [Connect 0, Data 0 (navigate_line @ [CHR 0x0A])] init)) =
     \<lparr>pendingRequests = [],
      commandQueue = [navigate_command, tabs_command],
      timers = [(1, \<lparr>t_command = tabs_command, t_alloc = 1, t_socket = 1, delay = 30000\<rparr>)],
      next_timer = 2, next_alloc = 2, buffers = [(0, [])], closed = {},
      writes = [\<lparr>w_socket = 0, w_data = timeout_result (JNum 1), w_origin = Expiry 0\<rparr>],
      delivered = [\<lparr>w_socket = 0, w_data = timeout_result (JNum 1), w_origin = Expiry 0\<rparr>],
      log_file = [ClientConnected, ReceivedCommand navigate_command, QueuedCommand (JNum 1),
                  ReceivedCommand tabs_command, QueuedCommand (JNum 1)], crashed = None\<rparr>"
  unfolding second_call_accepted
  by (simp add: fire_def expire_def requestId_samples socket_write_def Let_def)

text \<open>
  Connection 0 submits \<^verbatim>\<open>navigate\<close> and connection 1 submits \<^verbatim>\<open>get_tabs\<close>, both with
  \<^verbatim>\<open>requestId\<close> 1; then the timer of the first call fires.
\<close>

theorem duplicate_requestId_replaces_entry_witness:
  "map_of (timers (run sample_parse [Connect 0, Data 0 (navigate_line @ [CHR 0x0A])] init)) 0 =
     Some \<lparr>t_command = navigate_command, t_alloc = 0, t_socket = 0, delay = 30000\<rparr>
   \<and> requestId_of navigate_command = Some (JNum 1)
   \<and> map_of (pendingRequests (run sample_parse [Connect 0, Data 0 (navigate_line @ [CHR 0x0A])] init))
        (key_of 0 (JNum 1)) = Some \<lparr>socket = 0, timeout = 0\<rparr>
   \<and> trim tabs_line \<noteq> [] \<and> sample_parse tabs_line = Inr tabs_command
   \<and> requestId_of tabs_command = Some (JNum 1)
   \<and> key_of (next_alloc (run sample_parse [Connect 0, Data 0 (navigate_line @ [CHR 0x0A])] init))
        (JNum 1) = key_of 0 (JNum 1)
   \<and> pendingRequests (handle_line sample_parse 1 tabs_line
         (run sample_parse [Connect 0, Data 0 (navigate_line @ [CHR 0x0A])] init)) =
       [(KPrim (JNum 1), \<lparr>socket = 1, timeout = 1\<rparr>)]
   \<and> pendingRequests (fire 0 (handle_line sample_parse 1 tabs_line
         (run sample_parse [Connect 0, Data 0 (navigate_line @ [CHR 0x0A])] init))) = []
   \<and> writes (fire 0 (handle_line sample_parse 1 tabs_line
         (run sample_parse [Connect 0, Data 0 (navigate_line @ [CHR 0x0A])] init))) =
       [\<lparr>w_socket = 0,
          w_data = JObj [(''requestId'', JNum 1), (''success'', JBool False),
                         (''error'', JStr ''Timeout waiting for extension response'')],
          w_origin = Expiry 0\<rparr>]"
  using duplicate_requestId_replaces_entry [where parse = sample_parse
          and evs = "[Connect 0, Data 0 (navigate_line @ [CHR 0x0A])]"
          and st = "run sample_parse [Connect 0, Data 0 (navigate_line @ [CHR 0x0A])] init" and h = 0
          and t = "\<lparr>t_command = navigate_command, t_alloc = 0, t_socket = 0, delay = 30000\<rparr>"
          and requestId = "JNum 1" and p = "\<lparr>socket = 0, timeout = 0\<rparr>" and line = tabs_line
          and command = tabs_command and requestId' = "JNum 1" and s = 1]
  unfolding first_timer_fired
  unfolding second_call_accepted
  unfolding one_pending
  by (simp add: trim_samples parse_samples requestId_samples timeout_result_def)

section \<open>A client that goes away\<close>

lemma one_pending_closed:
  "run sample_parse [Connect 0, Data 0 (navigate_line @ [CHR 0x0A]), End 0] init =
     \<lparr>pendingRequests = [(KPrim (JNum 1), \<lparr>socket = 0, timeout = 0\<rparr>)],
      commandQueue = [navigate_command],
      timers = [(0, \<lparr>t_command = navigate_command, t_alloc = 0, t_socket = 0, delay = 30000\<rparr>)],
      next_timer = 1, next_alloc = 1, buffers = [(0, [])], closed = {0}, writes = [], delivered = [],
      log_file = [ClientConnected, ReceivedCommand navigate_command, QueuedCommand (JNum 1),
                  ClientDisconnected],
      crashed = None\<rparr>"
  by (simp add: run_def step_def init_def log_def buffer_def handle_data_def split_lines_one
        no_newline_samples handle_line_def trim_samples parse_samples requestId_samples
        setTimeout_def Let_def)

text \<open>
  C8, as the specification states it, fails on the log. Connection 0 submits \<^verbatim>\<open>navigate\<close> and
  ends. The completion that arrives afterwards calls \<^verbatim>\<open>socket.write\<close> on the ended connection:
  nothing is delivered, and the log records the response as sent to the client, with no
  entry for a failure. When instead the timer fires, the write delivers nothing and nothing
  at all is logged.
\<close>

theorem lost_write_not_logged_counterexample:
  "log_file (run sample_parse [Connect 0, Data 0 (navigate_line @ [CHR 0x0A]), End 0,
       Request ''POST'' ''/response'' result_text] init) =
     [ClientConnected, ReceivedCommand navigate_command, QueuedCommand (JNum 1),
      ClientDisconnected, ReceivedResponse result_value, SentResponse (JNum 1)]
   \<and> writes (run sample_parse [Connect 0, Data 0 (navigate_line @ [CHR 0x0A]), End 0,
       Request ''POST'' ''/response'' result_text] init) =
     [\<lparr>w_socket = 0, w_data = result_value, w_origin = Completion 0\<rparr>]
   \<and> delivered (run sample_parse [Connect 0, Data 0 (navigate_line @ [CHR 0x0A]), End 0,
       Request ''POST'' ''/response'' result_text] init) = []
   \<and> log_file (run sample_parse [Connect 0, Data 0 (navigate_line @ [CHR 0x0A]), End 0, Fire 0] init) =
     [ClientConnected, ReceivedCommand navigate_command, QueuedCommand (JNum 1), ClientDisconnected]
   \<and> writes (run sample_parse [Connect 0, Data 0 (navigate_line @ [CHR 0x0A]), End 0, Fire 0] init) =
     [\<lparr>w_socket = 0,
        w_data = JObj [(''requestId'', JNum 1), (''success'', JBool False),
                       (''error'', JStr ''Timeout waiting for extension response'')],
        w_origin = Expiry 0\<rparr>]
   \<and> delivered (run sample_parse [Connect 0, Data 0 (navigate_line @ [CHR 0x0A]), End 0, Fire 0] init) = []"
  by (simp add: run_def step_def init_def log_def buffer_def handle_data_def split_lines_one
        no_newline_samples handle_line_def trim_samples parse_samples requestId_samples
        setTimeout_def Let_def handle_request_def post_response_def settle_def
        socket_write_def fire_def expire_def timeout_result_def)

lemma completion_found:
  assumes "wf st" and "parse body = Inr result" and "requestId_of result = Some requestId"
    and "map_of (pendingRequests st) (key_of (next_alloc st) requestId) = Some p"
  shows "handle_request parse ''POST'' ''/response'' body st =
     (ok_reply,
      st\<lparr>next_alloc := Suc (next_alloc st),
         timers := AList.delete (timeout p) (timers st),
         pendingRequests := AList.delete (key_of (next_alloc st) requestId) (pendingRequests st),
         writes := writes st @ [\<lparr>w_socket = socket p, w_data = result,
                                  w_origin = Completion (timeout p)\<rparr>],
         delivered := delivered st @
           (if socket p \<in> closed st then []
            else [\<lparr>w_socket = socket p, w_data = result, w_origin = Completion (timeout p)\<rparr>]),
         log_file := log_file st @ [ReceivedResponse result, SentResponse requestId]\<rparr>)"
proof -
  have "\<not> unprintable requestId"
    using assms(1,4) by (rule found_key_printable) simp
  then show ?thesis
    using assms(2-4)
    by (simp add: handle_request_def post_response_def settle_def socket_write_def log_def Let_def)
qed

text \<open>
  C8, amended. The \<^verbatim>\<open>end\<close> event of a connection changes neither \<^verbatim>\<open>pendingRequests\<close> nor the
  armed timers nor \<^verbatim>\<open>commandQueue\<close>, and writes nothing; it is only logged. When a completion
  or a timer later resolves a call of the ended connection, \<^verbatim>\<open>socket.write\<close> is called once,
  nothing is delivered and nothing is written again; only that call's entry and timer leave
  the state, every other entry and every other timer is as before. The daemon does not
  notice that the write was lost: the completion is logged as a response sent to the client
  and answered with 200, the timer logs nothing. A socket error is logged only when the
  runtime raises the \<^verbatim>\<open>error\<close> event of the connection, and then nothing else changes.
\<close>

theorem client_close_leaves_calls_pending:
  "pendingRequests (step parse (End s) st) = pendingRequests st
   \<and> timers (step parse (End s) st) = timers st
   \<and> commandQueue (step parse (End s) st) = commandQueue st
   \<and> writes (step parse (End s) st) = writes st
   \<and> (crashed st = None \<longrightarrow>
        step parse (End s) st =
          st\<lparr>closed := insert s (closed st), log_file := log_file st @ [ClientDisconnected]\<rparr>
        \<and> step parse (Error s msg) st = st\<lparr>log_file := log_file st @ [SocketError msg]\<rparr>)
   \<and> (st' = run parse evs init \<and> parse body = Inr result
        \<and> requestId_of result = Some requestId
        \<and> map_of (pendingRequests st') (key_of (next_alloc st') requestId) = Some p
        \<and> socket p \<in> closed st' \<longrightarrow>
        handle_request parse ''POST'' ''/response'' body st' =
          (\<lparr>status = 200, headers = [], content = Text ''OK''\<rparr>,
           st'\<lparr>next_alloc := Suc (next_alloc st'),
               timers := AList.delete (timeout p) (timers st'),
               pendingRequests :=
                 AList.delete (key_of (next_alloc st') requestId) (pendingRequests st'),
               writes := writes st' @ [\<lparr>w_socket = socket p, w_data = result,
                                         w_origin = Completion (timeout p)\<rparr>],
               log_file := log_file st' @ [ReceivedResponse result, SentResponse requestId]\<rparr>)
        \<and> delivered (snd (handle_request parse ''POST'' ''/response'' body st')) = delivered st'
        \<and> (\<forall>k'. k' \<noteq> key_of (next_alloc st') requestId \<longrightarrow>
              map_of (pendingRequests (snd (handle_request parse ''POST'' ''/response'' body st'))) k' =
              map_of (pendingRequests st') k')
        \<and> (\<forall>h'. h' \<noteq> timeout p \<longrightarrow>
              map_of (timers (snd (handle_request parse ''POST'' ''/response'' body st'))) h' =
              map_of (timers st') h'))
   \<and> (map_of (timers st') h = Some t \<and> requestId_of (t_command t) = Some requestId'
        \<and> map_of (pendingRequests st') (key_of (t_alloc t) requestId') = Some p'
        \<and> t_socket t \<in> closed st' \<longrightarrow>
        fire h st' =
          st'\<lparr>timers := AList.delete h (timers st'),
              pendingRequests := AList.delete (key_of (t_alloc t) requestId') (pendingRequests st'),
              writes := writes st' @ [\<lparr>w_socket = t_socket t, w_data = timeout_result requestId',
                                        w_origin = Expiry h\<rparr>]\<rparr>
        \<and> delivered (fire h st') = delivered st'
        \<and> log_file (fire h st') = log_file st'
        \<and> (\<forall>k'. k' \<noteq> key_of (t_alloc t) requestId' \<longrightarrow>
              map_of (pendingRequests (fire h st')) k' = map_of (pendingRequests st') k')
        \<and> (\<forall>h'. h' \<noteq> h \<longrightarrow> map_of (timers (fire h st')) h' = map_of (timers st') h'))"
proof -
  have close: "pendingRequests (step parse (End s) st) = pendingRequests st
      \<and> timers (step parse (End s) st) = timers st
      \<and> commandQueue (step parse (End s) st) = commandQueue st
      \<and> writes (step parse (End s) st) = writes st
      \<and> (crashed st = None \<longrightarrow>
          step parse (End s) st =
            st\<lparr>closed := insert s (closed st), log_file := log_file st @ [ClientDisconnected]\<rparr>
          \<and> step parse (Error s msg) st = st\<lparr>log_file := log_file st @ [SocketError msg]\<rparr>)"
    by (simp add: step_def log_def)
  have completion: "st' = run parse evs init \<and> parse body = Inr result
        \<and> requestId_of result = Some requestId
        \<and> map_of (pendingRequests st') (key_of (next_alloc st') requestId) = Some p
        \<and> socket p \<in> closed st' \<longrightarrow>
        handle_request parse ''POST'' ''/response'' body st' =
          (\<lparr>status = 200, headers = [], content = Text ''OK''\<rparr>,
           st'\<lparr>next_alloc := Suc (next_alloc st'),
               timers := AList.delete (timeout p) (timers st'),
               pendingRequests :=
                 AList.delete (key_of (next_alloc st') requestId) (pendingRequests st'),
               writes := writes st' @ [\<lparr>w_socket = socket p, w_data = result,
                                         w_origin = Completion (timeout p)\<rparr>],
               log_file := log_file st' @ [ReceivedResponse result, SentResponse requestId]\<rparr>)
        \<and> delivered (snd (handle_request parse ''POST'' ''/response'' body st')) = delivered st'
        \<and> (\<forall>k'. k' \<noteq> key_of (next_alloc st') requestId \<longrightarrow>
              map_of (pendingRequests (snd (handle_request parse ''POST'' ''/response'' body st'))) k' =
              map_of (pendingRequests st') k')
        \<and> (\<forall>h'. h' \<noteq> timeout p \<longrightarrow>
              map_of (timers (snd (handle_request parse ''POST'' ''/response'' body st'))) h' =
              map_of (timers st') h')"
  proof (intro impI, elim conjE)
    assume reached: "st' = run parse evs init" and body: "parse body = Inr result"
      and rid: "requestId_of result = Some requestId"
      and entry: "map_of (pendingRequests st') (key_of (next_alloc st') requestId) = Some p"
      and gone: "socket p \<in> closed st'"
    have "wf st'" unfolding reached by (rule wf_reachable)
    note eq = completion_found [where parse = parse and body = body and st = st',
        OF this body rid entry]
    show "handle_request parse ''POST'' ''/response'' body st' =
          (\<lparr>status = 200, headers = [], content = Text ''OK''\<rparr>,
           st'\<lparr>next_alloc := Suc (next_alloc st'),
               timers := AList.delete (timeout p) (timers st'),
               pendingRequests :=
                 AList.delete (key_of (next_alloc st') requestId) (pendingRequests st'),
               writes := writes st' @ [\<lparr>w_socket = socket p, w_data = result,
                                         w_origin = Completion (timeout p)\<rparr>],
               log_file := log_file st' @ [ReceivedResponse result, SentResponse requestId]\<rparr>)
        \<and> delivered (snd (handle_request parse ''POST'' ''/response'' body st')) = delivered st'
        \<and> (\<forall>k'. k' \<noteq> key_of (next_alloc st') requestId \<longrightarrow>
              map_of (pendingRequests (snd (handle_request parse ''POST'' ''/response'' body st'))) k' =
              map_of (pendingRequests st') k')
        \<and> (\<forall>h'. h' \<noteq> timeout p \<longrightarrow>
              map_of (timers (snd (handle_request parse ''POST'' ''/response'' body st'))) h' =
              map_of (timers st') h')"
      unfolding eq using gone by (simp add: ok_reply_def delete_conv')
  qed
  have expiry: "map_of (timers st') h = Some t \<and> requestId_of (t_command t) = Some requestId'
        \<and> map_of (pendingRequests st') (key_of (t_alloc t) requestId') = Some p'
        \<and> t_socket t \<in> closed st' \<longrightarrow>
        fire h st' =
          st'\<lparr>timers := AList.delete h (timers st'),
              pendingRequests := AList.delete (key_of (t_alloc t) requestId') (pendingRequests st'),
              writes := writes st' @ [\<lparr>w_socket = t_socket t, w_data = timeout_result requestId',
                                        w_origin = Expiry h\<rparr>]\<rparr>
        \<and> delivered (fire h st') = delivered st'
        \<and> log_file (fire h st') = log_file st'
        \<and> (\<forall>k'. k' \<noteq> key_of (t_alloc t) requestId' \<longrightarrow>
              map_of (pendingRequests (fire h st')) k' = map_of (pendingRequests st') k')
        \<and> (\<forall>h'. h' \<noteq> h \<longrightarrow> map_of (timers (fire h st')) h' = map_of (timers st') h')"
  proof (intro impI, elim conjE)
    assume armed: "map_of (timers st') h = Some t"
      and rid: "requestId_of (t_command t) = Some requestId'"
      and entry: "map_of (pendingRequests st') (key_of (t_alloc t) requestId') = Some p'"
      and gone: "t_socket t \<in> closed st'"
    note eq = fire_found [OF armed rid entry]
    show "fire h st' =
          st'\<lparr>timers := AList.delete h (timers st'),
              pendingRequests := AList.delete (key_of (t_alloc t) requestId') (pendingRequests st'),
              writes := writes st' @ [\<lparr>w_socket = t_socket t, w_data = timeout_result requestId',
                                        w_origin = Expiry h\<rparr>]\<rparr>
        \<and> delivered (fire h st') = delivered st'
        \<and> log_file (fire h st') = log_file st'
        \<and> (\<forall>k'. k' \<noteq> key_of (t_alloc t) requestId' \<longrightarrow>
              map_of (pendingRequests (fire h st')) k' = map_of (pendingRequests st') k')
        \<and> (\<forall>h'. h' \<noteq> h \<longrightarrow> map_of (timers (fire h st')) h' = map_of (timers st') h')"
      unfolding eq using gone by (simp add: delete_conv')
  qed
  from close completion expiry show ?thesis by blast
qed

text \<open>
  Connection 0 submits \<^verbatim>\<open>navigate\<close> and ends. The call stays pending with its timer and its
  queued command; the completion, or else the timer, then resolves it with one write that
  reaches nobody, and the log has no entry for that.
\<close>

theorem client_close_leaves_calls_pending_witness:
  "pendingRequests (step sample_parse (End 0)
       (run sample_parse [Connect 0, Data 0 (navigate_line @ [CHR 0x0A])] init)) =
     [(KPrim (JNum 1), \<lparr>socket = 0, timeout = 0\<rparr>)]
   \<and> timers (step sample_parse (End 0)
       (run sample_parse [Connect 0, Data 0 (navigate_line @ [CHR 0x0A])] init)) =
     [(0, \<lparr>t_command = navigate_command, t_alloc = 0, t_socket = 0, delay = 30000\<rparr>)]
   \<and> commandQueue (step sample_parse (End 0)
       (run sample_parse [Connect 0, Data 0 (navigate_line @ [CHR 0x0A])] init)) = [navigate_command]
   \<and> crashed (run sample_parse [Connect 0, Data 0 (navigate_line @ [CHR 0x0A])] init) = None
   \<and> closed (step sample_parse (End 0)
       (run sample_parse [Connect 0, Data 0 (navigate_line @ [CHR 0x0A])] init)) = {0}
   \<and> log_file (step sample_parse (Error 0 ''write after end'')
       (run sample_parse [Connect 0, Data 0 (navigate_line @ [CHR 0x0A]), End 0] init)) =
     [ClientConnected, ReceivedCommand navigate_command, QueuedCommand (JNum 1),
      ClientDisconnected, SocketError ''write after end'']
   \<and> sample_parse result_text = Inr result_value
   \<and> requestId_of result_value = Some (JNum 1)
   \<and> map_of (pendingRequests (run sample_parse
         [Connect 0, Data 0 (navigate_line @ [CHR 0x0A]), End 0] init)) (KPrim (JNum 1)) =
     Some \<lparr>socket = 0, timeout = 0\<rparr>
   \<and> handle_request sample_parse ''POST'' ''/response'' result_text
       (run sample_parse [Connect 0, Data 0 (navigate_line @ [CHR 0x0A]), End 0] init) =
     (\<lparr>status = 200, headers = [], content = Text ''OK''\<rparr>,
      \<lparr>pendingRequests = [], commandQueue = [navigate_command], timers = [],
       next_timer = 1, next_alloc = 2, buffers = [(0, [])], closed = {0},
       writes = [\<lparr>w_socket = 0, w_data = result_value, w_origin = Completion 0\<rparr>],
       delivered = [],
       log_file = [ClientConnected, ReceivedCommand navigate_command, QueuedCommand (JNum 1),
                   ClientDisconnected, ReceivedResponse result_value, SentResponse (JNum 1)],
       crashed = None\<rparr>)
   \<and> map_of (timers (run sample_parse
         [Connect 0, Data 0 (navigate_line @ [CHR 0x0A]), End 0] init)) 0 =
     Some \<lparr>t_command = navigate_command, t_alloc = 0, t_socket = 0, delay = 30000\<rparr>
   \<and> requestId_of navigate_command = Some (JNum 1)
   \<and> fire 0 (run sample_parse [Connect 0, Data 0 (navigate_line @ [CHR 0x0A]), End 0] init) =
     \<lparr>pendingRequests = [], commandQueue = [navigate_command], timers = [],
      next_timer = 1, next_alloc = 1, buffers = [(0, [])], closed = {0},
      writes = [\<lparr>w_socket = 0, w_data = timeout_result (JNum 1), w_origin = Expiry 0\<rparr>],
      delivered = [],
      log_file = [ClientConnected, ReceivedCommand navigate_command, QueuedCommand (JNum 1),
                  ClientDisconnected],
      crashed = None\<rparr>"
  using client_close_leaves_calls_pending [where parse = sample_parse and s = 0
          and st = "run sample_parse [Connect 0, Data 0 (navigate_line @ [CHR 0x0A])] init"
          and msg = "''write after end''"
          and evs = "[Connect 0, Data 0 (navigate_line @ [CHR 0x0A]), End 0]"
          and st' = "run sample_parse [Connect 0, Data 0 (navigate_line @ [CHR 0x0A]), End 0] init"
          and body = result_text and result = result_value
          and p = "\<lparr>socket = 0, timeout = 0\<rparr>"
          and requestId = "JNum 1" and h = 0
          and t = "\<lparr>t_command = navigate_command, t_alloc = 0, t_socket = 0, delay = 30000\<rparr>"
          and requestId' = "JNum 1" and p' = "\<lparr>socket = 0, timeout = 0\<rparr>"]
        client_close_leaves_calls_pending [where parse = sample_parse and s = 0
          and st = "run sample_parse [Connect 0, Data 0 (navigate_line @ [CHR 0x0A]), End 0] init"
          and msg = "''write after end''"
          and evs = "[Connect 0, Data 0 (navigate_line @ [CHR 0x0A]), End 0]"
          and st' = "run sample_parse [Connect 0, Data 0 (navigate_line @ [CHR 0x0A]), End 0] init"
          and body = result_text and result = result_value
          and p = "\<lparr>socket = 0, timeout = 0\<rparr>"
          and requestId = "JNum 1" and h = 0
          and t = "\<lparr>t_command = navigate_command, t_alloc = 0, t_socket = 0, delay = 30000\<rparr>"
          and requestId' = "JNum 1" and p' = "\<lparr>socket = 0, timeout = 0\<rparr>"]
  unfolding one_pending_closed
  unfolding one_pending
  by (simp add: requestId_samples parse_samples)

section \<open>Order of delivery\<close>

lemma feed_one: "CHR 0x0A \<notin> set line \<Longrightarrow> feed [] (line @ [CHR 0x0A]) = ([line], [])"
  by (simp add: feed_split split_lines_one)

text \<open>
  C4. The submissions are read off the events alone: the lines in the order in which their
  newlines arrive, whatever connection they are on, and of these the accepted ones. The
  commands handed out are read off the replies to the polls. While the process lives: the
  commands handed out so far, followed by the commands still in the queue, are the
  submissions, in order; and one more poll hands out exactly the next submission in that
  order when there is one that has not been handed out, and nothing when there is none.
\<close>

theorem fifo_delivery:
  assumes "crashed (run parse evs init) = None"
  shows "polled parse evs init @ commandQueue (run parse evs init) = submitted parse evs
       \<and> polled parse (evs @ [Request ''GET'' ''/poll'' body]) init =
           take (Suc (length (polled parse evs init))) (submitted parse evs)"
proof -
  have nl: "\<forall>s. CHR 0x0A \<notin> set (buffer init s)" by (simp add: buffer_init)
  have q: "commandQueue init = []" by (simp add: init_def)
  have order: "polled parse evs init @ commandQueue (run parse evs init) = submitted parse evs"
    using queue_run [OF assms nl] by (simp add: submitted_def buffer_init q)
  have "polled parse (evs @ [Request ''GET'' ''/poll'' body]) init =
      polled parse evs init @ take 1 (commandQueue (run parse evs init))"
    using poll_takes_head [OF assms, of parse body] by (simp add: polled_snoc)
  also have "\<dots> = take (Suc (length (polled parse evs init))) (submitted parse evs)"
    using order by (rule next_in_line)
  finally show ?thesis using order by simp
qed

lemma two_clients_one_poll:
  "run sample_parse [Connect 0, Connect 1, Data 1 (tabs_line @ [CHR 0x0A]),
       Request ''GET'' ''/poll'' [], Data 0 (navigate_line @ [CHR 0x0A])] init =
     \<lparr>pendingRequests = [(KPrim (JNum 1), \<lparr>socket = 0, timeout = 1\<rparr>)],
      commandQueue = [navigate_command],
      timers = [(0, \<lparr>t_command = tabs_command, t_alloc = 0, t_socket = 1, delay = 30000\<rparr>),
                (1, \<lparr>t_command = navigate_command, t_alloc = 1, t_socket = 0, delay = 30000\<rparr>)],
      next_timer = 2, next_alloc = 2, buffers = [(0, []), (1, [])], closed = {}, writes = [],
      delivered = [],
      log_file = [ClientConnected, ClientConnected,
                  ReceivedCommand tabs_command, QueuedCommand (JNum 1),
                  SendingCommand tabs_command,
                  ReceivedCommand navigate_command, QueuedCommand (JNum 1)],
      crashed = None\<rparr>"
  by (simp add: run_def step_def init_def log_def buffer_def handle_data_def split_lines_one
        no_newline_samples handle_line_def trim_samples parse_samples requestId_samples
        setTimeout_def Let_def handle_request_def poll_def)

lemma two_clients_submitted:
  "submitted sample_parse [Connect 0, Connect 1, Data 1 (tabs_line @ [CHR 0x0A]),
       Request ''GET'' ''/poll'' [], Data 0 (navigate_line @ [CHR 0x0A])] =
     [tabs_command, navigate_command]"
  by (simp add: submitted_def accepted_def feed_one no_newline_samples trim_samples
        parse_samples requestId_samples)

lemma two_clients_polled:
  "polled sample_parse [Connect 0, Connect 1, Data 1 (tabs_line @ [CHR 0x0A]),
       Request ''GET'' ''/poll'' [], Data 0 (navigate_line @ [CHR 0x0A])] init = [tabs_command]"
  by (simp add: polled_by_def step_def init_def log_def buffer_def handle_data_def
        split_lines_one no_newline_samples handle_line_def trim_samples parse_samples
        requestId_samples setTimeout_def Let_def handle_request_def poll_def)

lemma two_clients_polled_again:
  "polled sample_parse ([Connect 0, Connect 1, Data 1 (tabs_line @ [CHR 0x0A]),
       Request ''GET'' ''/poll'' [], Data 0 (navigate_line @ [CHR 0x0A])]
       @ [Request ''GET'' ''/poll'' []]) init = [tabs_command, navigate_command]"
  by (simp add: polled_by_def step_def init_def log_def buffer_def handle_data_def
        split_lines_one no_newline_samples handle_line_def trim_samples parse_samples
        requestId_samples setTimeout_def Let_def handle_request_def poll_def)

text \<open>
  Connection 1 submits \<^verbatim>\<open>get_tabs\<close>, the executor polls, connection 0 submits \<^verbatim>\<open>navigate\<close>:
  the poll so far handed out \<^verbatim>\<open>get_tabs\<close>, \<^verbatim>\<open>navigate\<close> is in the queue, and one more poll
  hands it out.
\<close>

theorem fifo_delivery_witness:
  "crashed (run sample_parse [Connect 0, Connect 1, Data 1 (tabs_line @ [CHR 0x0A]),
       Request ''GET'' ''/poll'' [], Data 0 (navigate_line @ [CHR 0x0A])] init) = None
   \<and> submitted sample_parse [Connect 0, Connect 1, Data 1 (tabs_line @ [CHR 0x0A]),
       Request ''GET'' ''/poll'' [], Data 0 (navigate_line @ [CHR 0x0A])] =
     [tabs_command, navigate_command]
   \<and> polled sample_parse [Connect 0, Connect 1, Data 1 (tabs_line @ [CHR 0x0A]),
       Request ''GET'' ''/poll'' [], Data 0 (navigate_line @ [CHR 0x0A])] init = [tabs_command]
   \<and> commandQueue (run sample_parse [Connect 0, Connect 1, Data 1 (tabs_line @ [CHR 0x0A]),
       Request ''GET'' ''/poll'' [], Data 0 (navigate_line @ [CHR 0x0A])] init) = [navigate_command]
   \<and> polled sample_parse ([Connect 0, Connect 1, Data 1 (tabs_line @ [CHR 0x0A]),
       Request ''GET'' ''/poll'' [], Data 0 (navigate_line @ [CHR 0x0A])]
       @ [Request ''GET'' ''/poll'' []]) init = [tabs_command, navigate_command]"
  using fifo_delivery [where parse = sample_parse and body = "[]"
          and evs = "[Connect 0, Connect 1, Data 1 (tabs_line @ [CHR 0x0A]),
                      Request ''GET'' ''/poll'' [], Data 0 (navigate_line @ [CHR 0x0A])]"]
  unfolding two_clients_polled_again two_clients_polled two_clients_submitted
  unfolding two_clients_one_poll
  by simp

end
